theory Spec2Isabelle
  imports Complex_Main
begin

section \<open>Values shared by the three workers\<close>

text \<open>
  Python exceptions that the modelled code can meet. \<open>Full\<close> and \<open>Empty\<close> are the
  exceptions of the standard \<open>queue\<close> module; the others are raised by indexing, by
  dictionary lookup, by attribute access on \<open>None\<close> and by NumPy shape checks.
\<close>

datatype exn = Full | Empty | IndexError | KeyError | AttributeError | ValueError

text \<open>
  A Python or NumPy float. Finite values are idealised as real numbers (rounding is not
  modelled); the three non-finite values are kept apart, since NumPy produces them
  silently (division by zero, \<open>arccos\<close> outside its domain) instead of raising.
\<close>

datatype npfloat = Fin real | PosInf | NegInf | NaN

fun fl_neg :: "npfloat \<Rightarrow> npfloat" where
  "fl_neg (Fin r) = Fin (- r)"
| "fl_neg PosInf = NegInf"
| "fl_neg NegInf = PosInf"
| "fl_neg NaN = NaN"

fun fl_sub :: "npfloat \<Rightarrow> npfloat \<Rightarrow> npfloat" where
  "fl_sub (Fin a) (Fin b) = Fin (a - b)"
| "fl_sub NaN _ = NaN"
| "fl_sub _ NaN = NaN"
| "fl_sub PosInf PosInf = NaN"
| "fl_sub NegInf NegInf = NaN"
| "fl_sub PosInf _ = PosInf"
| "fl_sub NegInf _ = NegInf"
| "fl_sub (Fin a) PosInf = NegInf"
| "fl_sub (Fin a) NegInf = PosInf"

section \<open>utils.py: the angle at a vertex\<close>

text \<open>
  A point is a one-dimensional array of coordinates. \<open>a - b\<close> on such arrays follows
  NumPy broadcasting: equal lengths subtract elementwise, a length-one array is stretched,
  anything else raises \<open>ValueError\<close>.
\<close>

definition np_subtract :: "real list \<Rightarrow> real list \<Rightarrow> exn + real list" where
  "np_subtract a b =
     (if length a = length b then Inr (map2 (-) a b)
      else if length a = 1 then Inr (map (\<lambda>y. hd a - y) b)
      else if length b = 1 then Inr (map (\<lambda>x. x - hd b) a)
      else Inl ValueError)"

definition linalg_norm :: "real list \<Rightarrow> real" where
  "linalg_norm v = sqrt (sum_list (map (\<lambda>x. x * x) v))"

definition np_dot :: "real list \<Rightarrow> real list \<Rightarrow> exn + real" where
  "np_dot u v =
     (if length u = length v then Inr (sum_list (map2 (*) u v)) else Inl ValueError)"

text \<open>Float division in NumPy never raises: a zero divisor gives \<open>nan\<close> or an infinity.\<close>

definition np_divide :: "real \<Rightarrow> real \<Rightarrow> npfloat" where
  "np_divide x y =
     (if y \<noteq> 0 then Fin (x / y)
      else if x = 0 then NaN
      else if 0 < x then PosInf else NegInf)"

fun np_clip :: "npfloat \<Rightarrow> real \<Rightarrow> real \<Rightarrow> npfloat" where
  "np_clip (Fin v) lo hi = Fin (min (max v lo) hi)"
| "np_clip PosInf lo hi = Fin hi"
| "np_clip NegInf lo hi = Fin lo"
| "np_clip NaN lo hi = NaN"

fun np_arccos :: "npfloat \<Rightarrow> npfloat" where
  "np_arccos (Fin v) = (if - 1 \<le> v \<and> v \<le> 1 then Fin (arccos v) else NaN)"
| "np_arccos _ = NaN"

definition calculate_angle :: "real list \<Rightarrow> real list \<Rightarrow> real list \<Rightarrow> exn + npfloat" where
  "calculate_angle a b c =
     (case np_subtract a b of
        Inl e \<Rightarrow> Inl e
      | Inr ba \<Rightarrow>
     (case np_subtract c b of
        Inl e \<Rightarrow> Inl e
      | Inr bc \<Rightarrow>
     (let norm_ba = linalg_norm ba;
          norm_bc = linalg_norm bc
      in if norm_ba = 0 \<or> norm_bc = 0 then Inr (Fin 0)
         else
          (case np_dot ba bc of
             Inl e \<Rightarrow> Inl e
           | Inr dot_product \<Rightarrow>
               (let cosine_angle = np_divide dot_product (norm_ba * norm_bc);
                    cosine_angle = np_clip cosine_angle (- 1) 1
                in Inr (np_arccos cosine_angle))))))"

section \<open>The bounded queues of the standard library\<close>

text \<open>
  \<open>queue.Queue(maxsize)\<close>: a FIFO that is full when \<open>0 < maxsize \<le> qsize\<close>; a
  \<open>maxsize\<close> of zero or less means unbounded. \<open>put_nowait\<close> raises \<open>Full\<close> on a full
  queue and appends otherwise. \<open>get\<close> with a timeout is modelled at the moment the
  timeout expires with no producer having run: it raises \<open>Empty\<close> on an empty queue and
  removes the oldest item otherwise.
\<close>

record 'a bqueue =
  maxsize :: int
  items :: "'a list"

definition Queue :: "int \<Rightarrow> 'a bqueue" where
  "Queue n = \<lparr>maxsize = n, items = []\<rparr>"

definition full :: "'a bqueue \<Rightarrow> bool" where
  "full q = (0 < maxsize q \<and> maxsize q \<le> int (length (items q)))"

definition put_nowait :: "'a bqueue \<Rightarrow> 'a \<Rightarrow> exn + 'a bqueue" where
  "put_nowait q x = (if full q then Inl Full else Inr (q\<lparr>items := items q @ [x]\<rparr>))"

definition get_timeout :: "'a bqueue \<Rightarrow> exn + ('a \<times> 'a bqueue)" where
  "get_timeout q =
     (case items q of
        [] \<Rightarrow> Inl Empty
      | x # xs \<Rightarrow> Inr (x, q\<lparr>items := xs\<rparr>))"

section \<open>The shared state\<close>

text \<open>
  One keypoint row of the detector: \<open>[x, y, confidence]\<close>. The signal bundle is the
  dictionary with the three fixed keys \<open>left_arm\<close>, \<open>right_arm\<close>, \<open>hip_sway\<close>, each
  holding a float or \<open>None\<close>.
\<close>

record keypoint =
  kx :: real
  ky :: real
  kconf :: real

record pose_data =
  left_arm :: "npfloat option"
  right_arm :: "npfloat option"
  hip_sway :: "npfloat option"

text \<open>
  An image is opaque and identified by a number; the annotated frame is the detector's
  plot together with the labels \<open>cv2.putText\<close> drew on it (label and value shown).
\<close>

type_synonym image = nat

record annotated =
  plot :: image
  labels :: "(string \<times> npfloat) list"

definition putText :: "annotated \<Rightarrow> string \<Rightarrow> npfloat \<Rightarrow> annotated" where
  "putText img label v = img\<lparr>labels := labels img @ [(label, v)]\<rparr>"

text \<open>
  \<open>create_head_pose(y=v, mm=True)\<close> of the robot library: only the lateral
  displacement varies, so a head pose is that displacement in millimetres.
\<close>

datatype head_pose = HeadPose npfloat

definition create_head_pose :: "npfloat \<Rightarrow> head_pose" where
  "create_head_pose v = HeadPose v"

text \<open>
  Everything the threads of \<open>main\<close> share, plus the locals the control thread keeps
  between cycles, plus the robot sink \<open>mini\<close> as the list of targets it has received.
\<close>

record system =
  frame_queue :: "(annotated \<times> pose_data) bqueue"
  pose_queue :: "pose_data bqueue"
  stop_signal :: bool
  calibrate_event :: bool
  pose_zero_offsets :: "string \<rightharpoonup> real"
  last_head_pose :: head_pose
  last_antennas :: "npfloat list"
  mini :: "(head_pose \<times> npfloat list) list"

definition initial_system :: system where
  "initial_system =
     \<lparr>frame_queue = Queue 2,
      pose_queue = Queue 10,
      stop_signal = False,
      calibrate_event = False,
      pose_zero_offsets = [''hip_sway'' \<mapsto> 0],
      last_head_pose = create_head_pose (Fin 0),
      last_antennas = [Fin 0, Fin 0],
      mini = []\<rparr>"

section \<open>robot_controller.py: the control stage\<close>

definition SWAY_PIXEL_MAX :: real where
  "SWAY_PIXEL_MAX = 80"

definition HEAD_Y_MM_MAX :: real where
  "HEAD_Y_MM_MAX = 35"

definition SWAY_INPUT_RANGE :: "real list" where
  "SWAY_INPUT_RANGE = [- SWAY_PIXEL_MAX, SWAY_PIXEL_MAX]"

definition HEAD_OUTPUT_RANGE :: "real list" where
  "HEAD_OUTPUT_RANGE = [HEAD_Y_MM_MAX, - HEAD_Y_MM_MAX]"

text \<open>
  \<open>np.interp(x, xp, fp)\<close> for a finite \<open>x\<close> inside the sample range: find the
  segment \<open>xp[j] \<le> x < xp[j+1]\<close>; on the last sample, or exactly on a sample, return
  its value; otherwise \<open>slope * (x - xp[j]) + fp[j]\<close>.
\<close>

fun interp_segment :: "real \<Rightarrow> real list \<Rightarrow> real list \<Rightarrow> real" where
  "interp_segment x (x0 # x1 # xs) (y0 # y1 # ys) =
     (if x1 \<le> x then interp_segment x (x1 # xs) (y1 # ys)
      else if x0 = x then y0
      else (y1 - y0) / (x1 - x0) * (x - x0) + y0)"
| "interp_segment x xp (y0 # ys) = y0"
| "interp_segment x xp [] = 0"

text \<open>
  The whole of \<open>np.interp\<close>: mismatched or empty sample arrays raise \<open>ValueError\<close>,
  \<open>nan\<close> stays \<open>nan\<close>, and an \<open>x\<close> beyond the samples takes the value of the nearest
  end.
\<close>

definition np_interp :: "npfloat \<Rightarrow> real list \<Rightarrow> real list \<Rightarrow> exn + npfloat" where
  "np_interp x xp fp =
     (if length xp \<noteq> length fp \<or> xp = [] then Inl ValueError
      else
        (case x of
           NaN \<Rightarrow> Inr NaN
         | PosInf \<Rightarrow> Inr (Fin (last fp))
         | NegInf \<Rightarrow> Inr (Fin (hd fp))
         | Fin r \<Rightarrow>
             if last xp < r then Inr (Fin (last fp))
             else if r < hd xp then Inr (Fin (hd fp))
             else Inr (Fin (interp_segment r xp fp))))"

text \<open>Section 1 of the loop body: the head command, held when \<open>hip_sway\<close> is \<open>None\<close>.\<close>

definition head_command :: "pose_data \<Rightarrow> head_pose \<Rightarrow> exn + head_pose" where
  "head_command pd held =
     (case hip_sway pd of
        None \<Rightarrow> Inr held
      | Some s \<Rightarrow>
          (case np_interp s SWAY_INPUT_RANGE HEAD_OUTPUT_RANGE of
             Inl e \<Rightarrow> Inl e
           | Inr head_y_cmd \<Rightarrow>
               Inr (create_head_pose (np_clip head_y_cmd (- HEAD_Y_MM_MAX) HEAD_Y_MM_MAX))))"

text \<open>Section 2: the antenna pair, held unless both arm angles are present.\<close>

definition antenna_command :: "pose_data \<Rightarrow> npfloat list \<Rightarrow> npfloat list" where
  "antenna_command pd held =
     (case (left_arm pd, right_arm pd) of
        (Some l, Some r) \<Rightarrow>
          (let l_angle_cmd = fl_sub (Fin pi) l;
               r_angle_cmd = fl_sub (Fin pi) r
           in [fl_neg l_angle_cmd, r_angle_cmd])
      | _ \<Rightarrow> held)"

text \<open>
  One pass of the \<open>while\<close> loop of \<open>control_reachy\<close>. An empty queue continues; any
  other exception of the body is printed and swallowed, after the item was taken and
  before anything was sent or stored.
\<close>

definition control_reachy_body :: "system \<Rightarrow> system" where
  "control_reachy_body s =
     (case get_timeout (pose_queue s) of
        Inl e \<Rightarrow> s
      | Inr (pd, q) \<Rightarrow>
          (case head_command pd (last_head_pose s) of
             Inl e \<Rightarrow> s\<lparr>pose_queue := q\<rparr>
           | Inr new_head_pose \<Rightarrow>
               (let new_antennas = antenna_command pd (last_antennas s)
                in s\<lparr>pose_queue := q,
                     mini := mini s @ [(new_head_pose, new_antennas)],
                     last_head_pose := new_head_pose,
                     last_antennas := new_antennas\<rparr>)))"

text \<open>The loop runs until the stop flag is seen; \<open>n\<close> bounds the passes observed.\<close>

fun control_reachy_loop :: "nat \<Rightarrow> system \<Rightarrow> system" where
  "control_reachy_loop 0 s = s"
| "control_reachy_loop (Suc n) s =
     (if stop_signal s then s else control_reachy_loop n (control_reachy_body s))"

text \<open>After the loop: the final neutral target.\<close>

definition control_reachy_exit :: "system \<Rightarrow> system" where
  "control_reachy_exit s = s\<lparr>mini := mini s @ [(create_head_pose (Fin 0), [Fin 0, Fin 0])]\<rparr>"

section \<open>pose_detector.py: the vision stage\<close>

definition LEFT_SHOULDER :: nat where "LEFT_SHOULDER = 5"
definition RIGHT_SHOULDER :: nat where "RIGHT_SHOULDER = 6"
definition LEFT_ELBOW :: nat where "LEFT_ELBOW = 7"
definition RIGHT_ELBOW :: nat where "RIGHT_ELBOW = 8"
definition LEFT_HIP :: nat where "LEFT_HIP = 11"
definition RIGHT_HIP :: nat where "RIGHT_HIP = 12"
definition CONF_THRESHOLD :: real where "CONF_THRESHOLD = 0.5"

text \<open>Indexing with a non-negative constant: out of range raises \<open>IndexError\<close>.\<close>

definition getitem :: "'a list \<Rightarrow> nat \<Rightarrow> exn + 'a" where
  "getitem xs i = (if i < length xs then Inr (xs ! i) else Inl IndexError)"

text \<open>\<open>kpt[:2]\<close>, the position of a keypoint.\<close>

definition pos :: "keypoint \<Rightarrow> real list" where
  "pos k = [kx k, ky k]"

text \<open>
  What the \<open>try\<close> block works on: the frame being annotated, the bundle being filled
  and the two pieces of calibration state it may change.
\<close>

record extraction =
  annotated_frame :: annotated
  latest_pose_data :: pose_data
  trigger :: bool
  offsets :: "string \<rightharpoonup> real"

definition left_arm_angle :: "keypoint \<Rightarrow> keypoint \<Rightarrow> keypoint \<Rightarrow> extraction \<Rightarrow> exn + extraction" where
  "left_arm_angle l_hip_kpt l_shoulder_kpt l_elbow_kpt x =
     (if CONF_THRESHOLD < kconf l_hip_kpt \<and> CONF_THRESHOLD < kconf l_shoulder_kpt
         \<and> CONF_THRESHOLD < kconf l_elbow_kpt
      then
        (case calculate_angle (pos l_hip_kpt) (pos l_shoulder_kpt) (pos l_elbow_kpt) of
           Inl e \<Rightarrow> Inl e
         | Inr angle \<Rightarrow>
             Inr (x\<lparr>latest_pose_data := (latest_pose_data x)\<lparr>left_arm := Some angle\<rparr>,
                    annotated_frame := putText (annotated_frame x) ''L'' angle\<rparr>))
      else Inr x)"

definition right_arm_angle :: "keypoint \<Rightarrow> keypoint \<Rightarrow> keypoint \<Rightarrow> extraction \<Rightarrow> exn + extraction" where
  "right_arm_angle r_hip_kpt r_shoulder_kpt r_elbow_kpt x =
     (if CONF_THRESHOLD < kconf r_hip_kpt \<and> CONF_THRESHOLD < kconf r_shoulder_kpt
         \<and> CONF_THRESHOLD < kconf r_elbow_kpt
      then
        (case calculate_angle (pos r_hip_kpt) (pos r_shoulder_kpt) (pos r_elbow_kpt) of
           Inl e \<Rightarrow> Inl e
         | Inr angle \<Rightarrow>
             Inr (x\<lparr>latest_pose_data := (latest_pose_data x)\<lparr>right_arm := Some angle\<rparr>,
                    annotated_frame := putText (annotated_frame x) ''R'' angle\<rparr>))
      else Inr x)"

definition raw_sway :: "keypoint \<Rightarrow> keypoint \<Rightarrow> keypoint \<Rightarrow> keypoint \<Rightarrow> real" where
  "raw_sway l_hip_kpt r_hip_kpt l_shoulder_kpt r_shoulder_kpt =
     (let shoulder_center_x = (kx l_shoulder_kpt + kx r_shoulder_kpt) / 2;
          hip_center_x = (kx l_hip_kpt + kx r_hip_kpt) / 2
      in hip_center_x - shoulder_center_x)"

text \<open>
  The hip-sway section. With the trigger set, the dictionary entry is written and the
  trigger cleared before the entry is read back; without it, a missing entry raises
  \<open>KeyError\<close> before anything is changed.
\<close>

definition hip_sway_calculation ::
  "keypoint \<Rightarrow> keypoint \<Rightarrow> keypoint \<Rightarrow> keypoint \<Rightarrow> extraction \<Rightarrow> exn + extraction" where
  "hip_sway_calculation l_hip_kpt r_hip_kpt l_shoulder_kpt r_shoulder_kpt x =
     (if CONF_THRESHOLD < kconf l_hip_kpt \<and> CONF_THRESHOLD < kconf r_hip_kpt
         \<and> CONF_THRESHOLD < kconf l_shoulder_kpt \<and> CONF_THRESHOLD < kconf r_shoulder_kpt
      then
        (let raw_hip_sway = raw_sway l_hip_kpt r_hip_kpt l_shoulder_kpt r_shoulder_kpt;
             x1 = (if trigger x
                   then x\<lparr>offsets := (offsets x)(''hip_sway'' \<mapsto> raw_hip_sway),
                          trigger := False\<rparr>
                   else x)
         in (case offsets x1 ''hip_sway'' of
               None \<Rightarrow> Inl KeyError
             | Some zero \<Rightarrow>
                 (let final_hip_sway = Fin (raw_hip_sway - zero)
                  in Inr (x1\<lparr>latest_pose_data :=
                               (latest_pose_data x1)\<lparr>hip_sway := Some final_hip_sway\<rparr>,
                             annotated_frame :=
                               putText (annotated_frame x1) ''Sway'' final_hip_sway\<rparr>))))
      else Inr x)"

text \<open>
  The body of the \<open>try\<close> block after the \<open>continue\<close> test, for the first person. The six
  rows are read first; each section then either completes or raises before it changes
  anything, and \<open>except Exception: pass\<close> keeps what the earlier sections did.
\<close>

definition keypoint_processing :: "keypoint list \<Rightarrow> extraction \<Rightarrow> extraction" where
  "keypoint_processing person_kpts x =
     (case getitem person_kpts LEFT_HIP of Inl e \<Rightarrow> x | Inr l_hip_kpt \<Rightarrow>
     (case getitem person_kpts RIGHT_HIP of Inl e \<Rightarrow> x | Inr r_hip_kpt \<Rightarrow>
     (case getitem person_kpts LEFT_SHOULDER of Inl e \<Rightarrow> x | Inr l_shoulder_kpt \<Rightarrow>
     (case getitem person_kpts RIGHT_SHOULDER of Inl e \<Rightarrow> x | Inr r_shoulder_kpt \<Rightarrow>
     (case getitem person_kpts LEFT_ELBOW of Inl e \<Rightarrow> x | Inr l_elbow_kpt \<Rightarrow>
     (case getitem person_kpts RIGHT_ELBOW of Inl e \<Rightarrow> x | Inr r_elbow_kpt \<Rightarrow>
     (case left_arm_angle l_hip_kpt l_shoulder_kpt l_elbow_kpt x of Inl e \<Rightarrow> x | Inr x1 \<Rightarrow>
     (case right_arm_angle r_hip_kpt r_shoulder_kpt r_elbow_kpt x1 of Inl e \<Rightarrow> x1 | Inr x2 \<Rightarrow>
     (case hip_sway_calculation l_hip_kpt r_hip_kpt l_shoulder_kpt r_shoulder_kpt x2 of
        Inl e \<Rightarrow> x2
      | Inr x3 \<Rightarrow> x3)))))))))"

text \<open>
  One camera read and what the detector made of it: the plotted image and
  \<open>results[0].keypoints\<close>, which is \<open>None\<close> or holds one array of rows for each person.
\<close>

datatype cap_read = ReadFailed | Frame image "keypoint list list option"

text \<open>
  The \<open>try\<close> block as a whole. \<open>None\<close> is the \<open>continue\<close> taken when the detector found
  no person: control goes back to the loop head and nothing below the \<open>try\<close> runs.
\<close>

definition try_block :: "keypoint list list option \<Rightarrow> extraction \<Rightarrow> extraction option" where
  "try_block keypoints x =
     (case keypoints of
        None \<Rightarrow> Some x
      | Some all_keypoints_data \<Rightarrow>
          (case all_keypoints_data of
             [] \<Rightarrow> None
           | person_kpts # others \<Rightarrow> Some (keypoint_processing person_kpts x)))"

definition no_pose_data :: pose_data where
  "no_pose_data = \<lparr>left_arm = None, right_arm = None, hip_sway = None\<rparr>"

text \<open>
  One pass of the \<open>while\<close> loop of \<open>yolo_loop\<close> for a frame that was read:
  \<open>frame_result\<close> runs the \<open>try\<close> block on a fresh all-\<open>None\<close> bundle and the current
  calibration state. Its result is offered to the frame queue; \<open>Full\<close> is the only
  exception caught there.
\<close>

definition frame_result :: "image \<Rightarrow> keypoint list list option \<Rightarrow> system \<Rightarrow> extraction option" where
  "frame_result plotted keypoints s =
     try_block keypoints
       \<lparr>annotated_frame = \<lparr>plot = plotted, labels = []\<rparr>,
        latest_pose_data = no_pose_data,
        trigger = calibrate_event s,
        offsets = pose_zero_offsets s\<rparr>"

definition yolo_loop_body :: "image \<Rightarrow> keypoint list list option \<Rightarrow> system \<Rightarrow> exn + system" where
  "yolo_loop_body plotted keypoints s =
     (case frame_result plotted keypoints s of
        None \<Rightarrow> Inr s
      | Some x \<Rightarrow>
          (let s1 = s\<lparr>calibrate_event := trigger x, pose_zero_offsets := offsets x\<rparr>
           in (case put_nowait (frame_queue s1) (annotated_frame x, latest_pose_data x) of
                 Inr q \<Rightarrow> Inr (s1\<lparr>frame_queue := q\<rparr>)
               | Inl Full \<Rightarrow> Inr s1
               | Inl e \<Rightarrow> Inl e)))"

text \<open>
  The loop over the camera reads it is given, for a camera that opened and stays open: it
  ends when the stop flag is seen, when a read fails, or with the exception that escaped
  a pass.
\<close>

fun yolo_loop :: "cap_read list \<Rightarrow> system \<Rightarrow> exn + system" where
  "yolo_loop [] s = Inr s"
| "yolo_loop (r # rs) s =
     (if stop_signal s then Inr s
      else
        (case r of
           ReadFailed \<Rightarrow> Inr s
         | Frame plotted keypoints \<Rightarrow>
             (case yolo_loop_body plotted keypoints s of
                Inl e \<Rightarrow> Inl e
              | Inr s1 \<Rightarrow> yolo_loop rs s1)))"

section \<open>main.py: the display loop\<close>

text \<open>
  One pass of the UI loop with the key that \<open>cv2.waitKey(1) & 0xFF\<close> returned: 113 is
  \<open>q\<close>, 99 is \<open>c\<close>. An empty frame queue continues without polling the keyboard.
\<close>

definition main_body :: "nat \<Rightarrow> system \<Rightarrow> exn + system" where
  "main_body key s =
     (case get_timeout (frame_queue s) of
        Inl Empty \<Rightarrow> Inr s
      | Inl e \<Rightarrow> Inl e
      | Inr ((shown, pd), fq) \<Rightarrow>
          (let s1 = s\<lparr>frame_queue := fq\<rparr>
           in (case (case put_nowait (pose_queue s1) pd of
                       Inr q \<Rightarrow> Inr (s1\<lparr>pose_queue := q\<rparr>)
                     | Inl Full \<Rightarrow> Inr s1
                     | Inl e \<Rightarrow> Inl e) of
                 Inl e \<Rightarrow> Inl e
               | Inr s2 \<Rightarrow>
                   if key = 113 then Inr (s2\<lparr>stop_signal := True\<rparr>)
                   else if key = 99 then Inr (s2\<lparr>calibrate_event := True\<rparr>)
                   else Inr s2)))"

section \<open>Float32 arithmetic with overflow\<close>

text \<open>
  The keypoint rows are float32, so every result of \<open>calculate_angle\<close> and of the sway
  arithmetic is a float32: the exact result is rounded, and a rounded magnitude above the
  largest float32 becomes an infinity. The rounding is a parameter \<open>rnd\<close> of the model;
  the identity gives the exact arithmetic used above. The operations follow IEEE 754 on
  the non-finite values (the sign of zero is not tracked).
\<close>

definition FLT_MAX :: real where
  "FLT_MAX = (2 ^ 24 - 1) * 2 ^ 104"

definition to_float32 :: "(real \<Rightarrow> real) \<Rightarrow> real \<Rightarrow> npfloat" where
  "to_float32 rnd x =
     (let y = rnd x
      in if FLT_MAX < y then PosInf else if y < - FLT_MAX then NegInf else Fin y)"

fun f32_add :: "(real \<Rightarrow> real) \<Rightarrow> npfloat \<Rightarrow> npfloat \<Rightarrow> npfloat" where
  "f32_add rnd (Fin x) (Fin y) = to_float32 rnd (x + y)"
| "f32_add rnd NaN b = NaN"
| "f32_add rnd a NaN = NaN"
| "f32_add rnd PosInf NegInf = NaN"
| "f32_add rnd NegInf PosInf = NaN"
| "f32_add rnd PosInf b = PosInf"
| "f32_add rnd NegInf b = NegInf"
| "f32_add rnd a PosInf = PosInf"
| "f32_add rnd a NegInf = NegInf"

definition f32_sub :: "(real \<Rightarrow> real) \<Rightarrow> npfloat \<Rightarrow> npfloat \<Rightarrow> npfloat" where
  "f32_sub rnd a b = f32_add rnd a (fl_neg b)"

fun f32_mul :: "(real \<Rightarrow> real) \<Rightarrow> npfloat \<Rightarrow> npfloat \<Rightarrow> npfloat" where
  "f32_mul rnd (Fin x) (Fin y) = to_float32 rnd (x * y)"
| "f32_mul rnd NaN b = NaN"
| "f32_mul rnd a NaN = NaN"
| "f32_mul rnd PosInf (Fin y) = (if y = 0 then NaN else if 0 < y then PosInf else NegInf)"
| "f32_mul rnd NegInf (Fin y) = (if y = 0 then NaN else if 0 < y then NegInf else PosInf)"
| "f32_mul rnd (Fin x) PosInf = (if x = 0 then NaN else if 0 < x then PosInf else NegInf)"
| "f32_mul rnd (Fin x) NegInf = (if x = 0 then NaN else if 0 < x then NegInf else PosInf)"
| "f32_mul rnd PosInf PosInf = PosInf"
| "f32_mul rnd PosInf NegInf = NegInf"
| "f32_mul rnd NegInf PosInf = NegInf"
| "f32_mul rnd NegInf NegInf = PosInf"

fun f32_div :: "(real \<Rightarrow> real) \<Rightarrow> npfloat \<Rightarrow> npfloat \<Rightarrow> npfloat" where
  "f32_div rnd (Fin x) (Fin y) =
     (if y \<noteq> 0 then to_float32 rnd (x / y)
      else if x = 0 then NaN
      else if 0 < x then PosInf else NegInf)"
| "f32_div rnd NaN b = NaN"
| "f32_div rnd a NaN = NaN"
| "f32_div rnd (Fin x) b = Fin 0"
| "f32_div rnd PosInf (Fin y) = (if 0 \<le> y then PosInf else NegInf)"
| "f32_div rnd NegInf (Fin y) = (if 0 \<le> y then NegInf else PosInf)"
| "f32_div rnd PosInf PosInf = NaN"
| "f32_div rnd PosInf NegInf = NaN"
| "f32_div rnd NegInf PosInf = NaN"
| "f32_div rnd NegInf NegInf = NaN"

fun f32_sqrt :: "(real \<Rightarrow> real) \<Rightarrow> npfloat \<Rightarrow> npfloat" where
  "f32_sqrt rnd (Fin x) = (if x < 0 then NaN else to_float32 rnd (sqrt x))"
| "f32_sqrt rnd PosInf = PosInf"
| "f32_sqrt rnd v = NaN"

fun f32_arccos :: "(real \<Rightarrow> real) \<Rightarrow> npfloat \<Rightarrow> npfloat" where
  "f32_arccos rnd (Fin v) = (if - 1 \<le> v \<and> v \<le> 1 then to_float32 rnd (arccos v) else NaN)"
| "f32_arccos rnd v = NaN"

section \<open>utils.py and the signals of pose_detector.py in float32 arithmetic\<close>

text \<open>
  \<open>calculate_angle\<close> once more, statement by statement, with each arithmetic step done in
  float32. \<open>np.linalg.norm\<close> of a one-dimensional array is \<open>sqrt(dot(x, x))\<close>; the dot
  product accumulates from zero, left to right.
\<close>

definition np_subtract32 :: "(real \<Rightarrow> real) \<Rightarrow> real list \<Rightarrow> real list \<Rightarrow> exn + npfloat list" where
  "np_subtract32 rnd a b =
     (if length a = length b then Inr (map2 (\<lambda>x y. f32_sub rnd (Fin x) (Fin y)) a b)
      else if length a = 1 then Inr (map (\<lambda>y. f32_sub rnd (Fin (hd a)) (Fin y)) b)
      else if length b = 1 then Inr (map (\<lambda>x. f32_sub rnd (Fin x) (Fin (hd b))) a)
      else Inl ValueError)"

definition np_dot32 :: "(real \<Rightarrow> real) \<Rightarrow> npfloat list \<Rightarrow> npfloat list \<Rightarrow> exn + npfloat" where
  "np_dot32 rnd u v =
     (if length u = length v
      then Inr (foldl (\<lambda>acc (x, y). f32_add rnd acc (f32_mul rnd x y)) (Fin 0) (zip u v))
      else Inl ValueError)"

definition linalg_norm32 :: "(real \<Rightarrow> real) \<Rightarrow> npfloat list \<Rightarrow> npfloat" where
  "linalg_norm32 rnd v =
     f32_sqrt rnd (foldl (\<lambda>acc x. f32_add rnd acc (f32_mul rnd x x)) (Fin 0) v)"

definition calculate_angle32 ::
  "(real \<Rightarrow> real) \<Rightarrow> real list \<Rightarrow> real list \<Rightarrow> real list \<Rightarrow> exn + npfloat" where
  "calculate_angle32 rnd a b c =
     (case np_subtract32 rnd a b of
        Inl e \<Rightarrow> Inl e
      | Inr ba \<Rightarrow>
     (case np_subtract32 rnd c b of
        Inl e \<Rightarrow> Inl e
      | Inr bc \<Rightarrow>
     (let norm_ba = linalg_norm32 rnd ba;
          norm_bc = linalg_norm32 rnd bc
      in if norm_ba = Fin 0 \<or> norm_bc = Fin 0 then Inr (Fin 0)
         else
          (case np_dot32 rnd ba bc of
             Inl e \<Rightarrow> Inl e
           | Inr dot_product \<Rightarrow>
               (let cosine_angle = f32_div rnd dot_product (f32_mul rnd norm_ba norm_bc);
                    cosine_angle = np_clip cosine_angle (- 1) 1
                in Inr (f32_arccos rnd cosine_angle))))))"

text \<open>
  The \<open>try\<close> block once more, with \<open>calculate_angle\<close> and the sway computed in float32
  and the stored offset a float that may be non-finite. It takes the trigger and the
  offset dictionary as they are when the frame arrives.
\<close>

record extraction32 =
  annotated_frame32 :: annotated
  latest_pose_data32 :: pose_data
  trigger32 :: bool
  offsets32 :: "string \<rightharpoonup> npfloat"

definition left_arm_angle32 ::
  "(real \<Rightarrow> real) \<Rightarrow> keypoint \<Rightarrow> keypoint \<Rightarrow> keypoint \<Rightarrow> extraction32 \<Rightarrow> exn + extraction32" where
  "left_arm_angle32 rnd l_hip_kpt l_shoulder_kpt l_elbow_kpt x =
     (if CONF_THRESHOLD < kconf l_hip_kpt \<and> CONF_THRESHOLD < kconf l_shoulder_kpt
         \<and> CONF_THRESHOLD < kconf l_elbow_kpt
      then
        (case calculate_angle32 rnd (pos l_hip_kpt) (pos l_shoulder_kpt) (pos l_elbow_kpt) of
           Inl e \<Rightarrow> Inl e
         | Inr angle \<Rightarrow>
             Inr (x\<lparr>latest_pose_data32 := (latest_pose_data32 x)\<lparr>left_arm := Some angle\<rparr>,
                    annotated_frame32 := putText (annotated_frame32 x) ''L'' angle\<rparr>))
      else Inr x)"

definition right_arm_angle32 ::
  "(real \<Rightarrow> real) \<Rightarrow> keypoint \<Rightarrow> keypoint \<Rightarrow> keypoint \<Rightarrow> extraction32 \<Rightarrow> exn + extraction32" where
  "right_arm_angle32 rnd r_hip_kpt r_shoulder_kpt r_elbow_kpt x =
     (if CONF_THRESHOLD < kconf r_hip_kpt \<and> CONF_THRESHOLD < kconf r_shoulder_kpt
         \<and> CONF_THRESHOLD < kconf r_elbow_kpt
      then
        (case calculate_angle32 rnd (pos r_hip_kpt) (pos r_shoulder_kpt) (pos r_elbow_kpt) of
           Inl e \<Rightarrow> Inl e
         | Inr angle \<Rightarrow>
             Inr (x\<lparr>latest_pose_data32 := (latest_pose_data32 x)\<lparr>right_arm := Some angle\<rparr>,
                    annotated_frame32 := putText (annotated_frame32 x) ''R'' angle\<rparr>))
      else Inr x)"

definition raw_sway32 ::
  "(real \<Rightarrow> real) \<Rightarrow> keypoint \<Rightarrow> keypoint \<Rightarrow> keypoint \<Rightarrow> keypoint \<Rightarrow> npfloat" where
  "raw_sway32 rnd l_hip_kpt r_hip_kpt l_shoulder_kpt r_shoulder_kpt =
     (let shoulder_center_x =
            f32_div rnd (f32_add rnd (Fin (kx l_shoulder_kpt)) (Fin (kx r_shoulder_kpt))) (Fin 2);
          hip_center_x =
            f32_div rnd (f32_add rnd (Fin (kx l_hip_kpt)) (Fin (kx r_hip_kpt))) (Fin 2)
      in f32_sub rnd hip_center_x shoulder_center_x)"

definition hip_sway_calculation32 ::
  "(real \<Rightarrow> real) \<Rightarrow> keypoint \<Rightarrow> keypoint \<Rightarrow> keypoint \<Rightarrow> keypoint
     \<Rightarrow> extraction32 \<Rightarrow> exn + extraction32" where
  "hip_sway_calculation32 rnd l_hip_kpt r_hip_kpt l_shoulder_kpt r_shoulder_kpt x =
     (if CONF_THRESHOLD < kconf l_hip_kpt \<and> CONF_THRESHOLD < kconf r_hip_kpt
         \<and> CONF_THRESHOLD < kconf l_shoulder_kpt \<and> CONF_THRESHOLD < kconf r_shoulder_kpt
      then
        (let raw_hip_sway = raw_sway32 rnd l_hip_kpt r_hip_kpt l_shoulder_kpt r_shoulder_kpt;
             x1 = (if trigger32 x
                   then x\<lparr>offsets32 := (offsets32 x)(''hip_sway'' \<mapsto> raw_hip_sway),
                          trigger32 := False\<rparr>
                   else x)
         in (case offsets32 x1 ''hip_sway'' of
               None \<Rightarrow> Inl KeyError
             | Some zero \<Rightarrow>
                 (let final_hip_sway = f32_sub rnd raw_hip_sway zero
                  in Inr (x1\<lparr>latest_pose_data32 :=
                               (latest_pose_data32 x1)\<lparr>hip_sway := Some final_hip_sway\<rparr>,
                             annotated_frame32 :=
                               putText (annotated_frame32 x1) ''Sway'' final_hip_sway\<rparr>))))
      else Inr x)"

definition keypoint_processing32 ::
  "(real \<Rightarrow> real) \<Rightarrow> keypoint list \<Rightarrow> extraction32 \<Rightarrow> extraction32" where
  "keypoint_processing32 rnd person_kpts x =
     (case getitem person_kpts LEFT_HIP of Inl e \<Rightarrow> x | Inr l_hip_kpt \<Rightarrow>
     (case getitem person_kpts RIGHT_HIP of Inl e \<Rightarrow> x | Inr r_hip_kpt \<Rightarrow>
     (case getitem person_kpts LEFT_SHOULDER of Inl e \<Rightarrow> x | Inr l_shoulder_kpt \<Rightarrow>
     (case getitem person_kpts RIGHT_SHOULDER of Inl e \<Rightarrow> x | Inr r_shoulder_kpt \<Rightarrow>
     (case getitem person_kpts LEFT_ELBOW of Inl e \<Rightarrow> x | Inr l_elbow_kpt \<Rightarrow>
     (case getitem person_kpts RIGHT_ELBOW of Inl e \<Rightarrow> x | Inr r_elbow_kpt \<Rightarrow>
     (case left_arm_angle32 rnd l_hip_kpt l_shoulder_kpt l_elbow_kpt x of
        Inl e \<Rightarrow> x | Inr x1 \<Rightarrow>
     (case right_arm_angle32 rnd r_hip_kpt r_shoulder_kpt r_elbow_kpt x1 of
        Inl e \<Rightarrow> x1 | Inr x2 \<Rightarrow>
     (case hip_sway_calculation32 rnd l_hip_kpt r_hip_kpt l_shoulder_kpt r_shoulder_kpt x2 of
        Inl e \<Rightarrow> x2
      | Inr x3 \<Rightarrow> x3)))))))))"

definition try_block32 ::
  "(real \<Rightarrow> real) \<Rightarrow> keypoint list list option \<Rightarrow> extraction32 \<Rightarrow> extraction32 option" where
  "try_block32 rnd keypoints x =
     (case keypoints of
        None \<Rightarrow> Some x
      | Some all_keypoints_data \<Rightarrow>
          (case all_keypoints_data of
             [] \<Rightarrow> None
           | person_kpts # others \<Rightarrow> Some (keypoint_processing32 rnd person_kpts x)))"

definition frame_result32 ::
  "(real \<Rightarrow> real) \<Rightarrow> image \<Rightarrow> keypoint list list option \<Rightarrow> bool \<Rightarrow> (string \<rightharpoonup> npfloat)
     \<Rightarrow> extraction32 option" where
  "frame_result32 rnd plotted keypoints calibrate zero_offsets =
     try_block32 rnd keypoints
       \<lparr>annotated_frame32 = \<lparr>plot = plotted, labels = []\<rparr>,
        latest_pose_data32 = no_pose_data,
        trigger32 = calibrate,
        offsets32 = zero_offsets\<rparr>"

section \<open>Predicates used to state the properties\<close>

text \<open>A bundle field is well formed when it is \<open>None\<close> or a finite float.\<close>

fun finite_or_none :: "npfloat option \<Rightarrow> bool" where
  "finite_or_none None = True"
| "finite_or_none (Some (Fin r)) = True"
| "finite_or_none (Some v) = False"

text \<open>An arm angle, when present, is a finite value between 0 and \<open>pi\<close>.\<close>

fun angle_or_none :: "npfloat option \<Rightarrow> bool" where
  "angle_or_none None = True"
| "angle_or_none (Some (Fin r)) = (0 \<le> r \<and> r \<le> pi)"
| "angle_or_none (Some v) = False"

text \<open>Both hips and both shoulders exceed the confidence threshold.\<close>

definition visible :: "keypoint \<Rightarrow> keypoint \<Rightarrow> keypoint \<Rightarrow> keypoint \<Rightarrow> bool" where
  "visible lh rh ls rs =
     (CONF_THRESHOLD < kconf lh \<and> CONF_THRESHOLD < kconf rh
      \<and> CONF_THRESHOLD < kconf ls \<and> CONF_THRESHOLD < kconf rs)"

text \<open>
  The frames on which the raw sway is computed: a first person exists, its array has the
  rows up to \<open>RIGHT_HIP\<close>, and both hips and both shoulders exceed the threshold. On every
  other frame the detector gave no keypoints object, found no person, gave too short an
  array, or one of the four confidences is at most 0.5.
\<close>

definition sway_computed :: "keypoint list list option \<Rightarrow> bool" where
  "sway_computed keypoints =
     (case keypoints of
        Some (p # others) \<Rightarrow>
          RIGHT_HIP < length p
          \<and> CONF_THRESHOLD < kconf (p ! LEFT_HIP) \<and> CONF_THRESHOLD < kconf (p ! RIGHT_HIP)
          \<and> CONF_THRESHOLD < kconf (p ! LEFT_SHOULDER) \<and> CONF_THRESHOLD < kconf (p ! RIGHT_SHOULDER)
      | _ \<Rightarrow> False)"

text \<open>The raw sway of the first person of such a frame.\<close>

definition frame_raw_sway :: "keypoint list \<Rightarrow> real" where
  "frame_raw_sway p =
     raw_sway (p ! LEFT_HIP) (p ! RIGHT_HIP) (p ! LEFT_SHOULDER) (p ! RIGHT_SHOULDER)"

text \<open>
  A sample detector output: seventeen rows, all confident, shoulders at x = 100 and 200,
  elbows beside them, hips shifted by \<open>dx\<close> against the shoulders.
\<close>

definition kpt :: "real \<Rightarrow> keypoint" where
  "kpt x = \<lparr>kx = x, ky = 0, kconf = 9 / 10\<rparr>"

definition sample_person :: "real \<Rightarrow> keypoint list" where
  "sample_person dx =
     [kpt 0, kpt 0, kpt 0, kpt 0, kpt 0, kpt 100, kpt 200, kpt 90, kpt 210, kpt 0, kpt 0,
      kpt (100 + dx), kpt (200 + dx), kpt 0, kpt 0, kpt 0, kpt 0]"

text \<open>
  What is assumed of a rounding: it at most doubles a magnitude, keeps non-negative values
  non-negative, and the product of two non-zero norms does not round to zero (each norm is
  the rounded square root of a float, so it is too large for that in float32).
\<close>

definition float32_rounding :: "(real \<Rightarrow> real) \<Rightarrow> bool" where
  "float32_rounding rnd =
     ((\<forall>x. \<bar>rnd x\<bar> \<le> 2 * \<bar>x\<bar>)
      \<and> (\<forall>x. 0 \<le> x \<longrightarrow> 0 \<le> rnd x)
      \<and> (\<forall>x y. rnd (sqrt (rnd x)) \<noteq> 0 \<and> rnd (sqrt (rnd y)) \<noteq> 0
             \<longrightarrow> rnd (rnd (sqrt (rnd x)) * rnd (sqrt (rnd y))) \<noteq> 0))"

text \<open>A rounding that errs towards zero by one part in \<open>2 ^ 24\<close>.\<close>

definition round_down :: "real \<Rightarrow> real" where
  "round_down x = x * (1 - 1 / 2 ^ 24)"

text \<open>A finite float of magnitude at most \<open>M\<close>.\<close>

fun bounded_by :: "real \<Rightarrow> npfloat \<Rightarrow> bool" where
  "bounded_by M (Fin r) = (\<bar>r\<bar> \<le> M)"
| "bounded_by M v = False"

text \<open>
  Coordinates of magnitude at most \<open>10 ^ 16\<close>, far beyond any pixel coordinate, for which
  no intermediate result overflows; a stored offset that is such a frame's raw sway.
\<close>

definition COORD_MAX :: real where
  "COORD_MAX = 10 ^ 16"

definition in_range :: "keypoint \<Rightarrow> bool" where
  "in_range k = (\<bar>kx k\<bar> \<le> COORD_MAX \<and> \<bar>ky k\<bar> \<le> COORD_MAX)"

definition frame_in_range :: "keypoint list list option \<Rightarrow> bool" where
  "frame_in_range keypoints =
     (case keypoints of Some (p # others) \<Rightarrow> list_all in_range p | _ \<Rightarrow> True)"

definition offset_in_range :: "(string \<rightharpoonup> npfloat) \<Rightarrow> bool" where
  "offset_in_range zero_offsets =
     (case zero_offsets ''hip_sway'' of
        None \<Rightarrow> True
      | Some zero \<Rightarrow> bounded_by (16 * COORD_MAX) zero)"

text \<open>An arm angle field is \<open>None\<close> or the rounding of a value between 0 and \<open>pi\<close>.\<close>

definition rounded_angle :: "(real \<Rightarrow> real) \<Rightarrow> npfloat option \<Rightarrow> bool" where
  "rounded_angle rnd v = (v = None \<or> (\<exists>t. 0 \<le> t \<and> t \<le> pi \<and> v = Some (Fin (rnd t))))"

text \<open>
  A detector output with finite but very large coordinates: both hips at
  \<open>(2 ^ 127, 0)\<close>, the left elbow at \<open>(2 ^ 127, 2 ^ 127)\<close>, everything else at the origin.
\<close>

definition kpt_at :: "real \<Rightarrow> real \<Rightarrow> keypoint" where
  "kpt_at x y = \<lparr>kx = x, ky = y, kconf = 9 / 10\<rparr>"

definition far_person :: "keypoint list" where
  "far_person =
     [kpt 0, kpt 0, kpt 0, kpt 0, kpt 0, kpt 0, kpt 0, kpt_at (2 ^ 127) (2 ^ 127), kpt 0,
      kpt 0, kpt 0, kpt (2 ^ 127), kpt (2 ^ 127), kpt 0, kpt 0, kpt 0, kpt 0]"

section \<open>The mapping as the specification words it\<close>

text \<open>
  The specification's description of the hip-sway mapping, written independently of the
  code: the straight line through (-80, +35) and (+80, -35), evaluated at the sway, then
  clamped to [-35, +35] millimetres.
\<close>

definition spec_lateral_mm :: "real \<Rightarrow> real" where
  "spec_lateral_mm s = min (max (35 + (s - (- 80)) * ((- 35 - 35) / (80 - (- 80)))) (- 35)) 35"

section \<open>Properties of the control stage\<close>

lemma interp_sway:
  "np_interp (Fin s) SWAY_INPUT_RANGE HEAD_OUTPUT_RANGE =
     Inr (Fin (if s < - 80 then 35 else if 80 \<le> s then - 35 else - (35 * s / 80)))"
  by (simp add: np_interp_def SWAY_INPUT_RANGE_def HEAD_OUTPUT_RANGE_def SWAY_PIXEL_MAX_def
      HEAD_Y_MM_MAX_def field_simps)

lemma head_command_fin:
  "head_command (pd\<lparr>hip_sway := Some (Fin s)\<rparr>) held =
     Inr (HeadPose (Fin (if s < - 80 then 35 else if 80 \<le> s then - 35 else - (35 * s / 80))))"
  by (simp add: head_command_def interp_sway create_head_pose_def HEAD_Y_MM_MAX_def)

lemma np_interp_total:
  "\<exists>v. np_interp x SWAY_INPUT_RANGE HEAD_OUTPUT_RANGE = Inr v"
  by (cases x) (simp_all add: np_interp_def SWAY_INPUT_RANGE_def HEAD_OUTPUT_RANGE_def)

lemma head_command_total: "\<exists>h. head_command pd held = Inr h"
proof (cases "hip_sway pd")
  case None
  then show ?thesis by (simp add: head_command_def)
next
  case (Some x)
  obtain v where "np_interp x SWAY_INPUT_RANGE HEAD_OUTPUT_RANGE = Inr v"
    using np_interp_total by blast
  with Some show ?thesis by (simp add: head_command_def)
qed

lemma control_body_sends:
  assumes "items (pose_queue s) = pd # rest"
    and "head_command pd (last_head_pose s) = Inr h"
  shows "control_reachy_body s =
           s\<lparr>pose_queue := (pose_queue s)\<lparr>items := rest\<rparr>,
             mini := mini s @ [(h, antenna_command pd (last_antennas s))],
             last_head_pose := h,
             last_antennas := antenna_command pd (last_antennas s)\<rparr>"
  using assms by (simp add: control_reachy_body_def get_timeout_def Let_def)


lemma antenna_both:
  "antenna_command (pd\<lparr>left_arm := Some l, right_arm := Some r\<rparr>) held =
     [fl_neg (fl_sub (Fin pi) l), fl_sub (Fin pi) r]"
  by (simp add: antenna_command_def)

lemma antenna_held:
  "left_arm pd = None \<or> right_arm pd = None \<Longrightarrow> antenna_command pd held = held"
  by (auto simp: antenna_command_def split: option.splits)

lemma head_held: "hip_sway pd = None \<Longrightarrow> head_command pd held = Inr held"
  by (simp add: head_command_def)

subsection \<open>The end-to-end scenario\<close>

text \<open>
  C1: when the control stage consumes the bundle \<open>{left_arm: 0, right_arm: pi, hip_sway: 40}\<close>
  (the relative sway the vision stage reports with offset 0), the target it sends to the
  robot is lateral displacement -17.5 mm, left antenna \<open>-pi\<close>, right antenna 0, whatever
  command was held before.
\<close>

theorem end_to_end_target:
  assumes "items (pose_queue s) =
             \<lparr>left_arm = Some (Fin 0), right_arm = Some (Fin pi), hip_sway = Some (Fin 40)\<rparr> # rest"
  shows "mini (control_reachy_body s) =
           mini s @ [(HeadPose (Fin (- 17.5)), [Fin (- pi), Fin 0])]"
proof -
  let ?pd = "\<lparr>left_arm = Some (Fin 0), right_arm = Some (Fin pi), hip_sway = Some (Fin 40)\<rparr>"
  have h: "head_command ?pd (last_head_pose s) = Inr (HeadPose (Fin (- 17.5)))"
    using head_command_fin [where pd = ?pd and s = 40 and held = "last_head_pose s"] by simp
  have a: "antenna_command ?pd (last_antennas s) = [Fin (- pi), Fin 0]"
    using antenna_both [where pd = ?pd and l = "Fin 0" and r = "Fin pi" and held = "last_antennas s"] by simp
  show ?thesis
    using control_body_sends [OF assms h] a by simp
qed

theorem end_to_end_target_witness:
  "mini (control_reachy_body
      (initial_system\<lparr>pose_queue := \<lparr>maxsize = 10, items =
          [\<lparr>left_arm = Some (Fin 0), right_arm = Some (Fin pi), hip_sway = Some (Fin 40)\<rparr>]\<rparr>,
         last_head_pose := HeadPose (Fin 20), last_antennas := [Fin 1, Fin 2]\<rparr>)) =
     [(HeadPose (Fin (- 17.5)), [Fin (- pi), Fin 0])]"
  using end_to_end_target [of "initial_system\<lparr>pose_queue := \<lparr>maxsize = 10, items =
          [\<lparr>left_arm = Some (Fin 0), right_arm = Some (Fin pi), hip_sway = Some (Fin 40)\<rparr>]\<rparr>,
         last_head_pose := HeadPose (Fin 20), last_antennas := [Fin 1, Fin 2]\<rparr>" "[]"]
  by (simp add: initial_system_def)

lemma head_command_spec:
  "head_command (pd\<lparr>hip_sway := Some (Fin s)\<rparr>) held = Inr (HeadPose (Fin (spec_lateral_mm s)))"
  by (simp add: head_command_fin spec_lateral_mm_def min_def max_def field_simps)

subsection \<open>The hip-sway mapping\<close>

text \<open>
  C2: for every bundle whose \<open>hip_sway\<close> is present with value \<open>s\<close>, the lateral head
  displacement sent to the robot is the linear interpolation of \<open>s\<close> from [-80, +80]
  pixels to [+35, -35] mm, clamped to [-35, +35] mm. It never exceeds 35 mm in magnitude,
  and it is 0 at 0, exactly -35 at +80 and exactly +35 at -80.
\<close>

theorem hip_sway_mapping:
  assumes "items (pose_queue st) = pd\<lparr>hip_sway := Some (Fin s)\<rparr> # rest"
  shows "map fst (mini (control_reachy_body st)) =
           map fst (mini st) @ [HeadPose (Fin (spec_lateral_mm s))]
         \<and> \<bar>spec_lateral_mm s\<bar> \<le> 35
         \<and> spec_lateral_mm 0 = 0
         \<and> spec_lateral_mm 80 = - 35
         \<and> spec_lateral_mm (- 80) = 35"
proof -
  have "map fst (mini (control_reachy_body st)) =
          map fst (mini st) @ [HeadPose (Fin (spec_lateral_mm s))]"
    using control_body_sends [OF assms head_command_spec] by simp
  moreover have "\<bar>spec_lateral_mm s\<bar> \<le> 35"
    unfolding spec_lateral_mm_def by (auto simp: min_def max_def abs_if)
  moreover have "spec_lateral_mm 0 = 0" "spec_lateral_mm 80 = - 35" "spec_lateral_mm (- 80) = 35"
    by (simp_all add: spec_lateral_mm_def)
  ultimately show ?thesis by simp
qed

theorem hip_sway_mapping_witness:
  "map fst (mini (control_reachy_body
      (initial_system\<lparr>pose_queue := \<lparr>maxsize = 10, items =
          [\<lparr>left_arm = None, right_arm = None, hip_sway = Some (Fin 200)\<rparr>]\<rparr>\<rparr>))) =
     [HeadPose (Fin (- 35))]"
proof -
  let ?pd = "\<lparr>left_arm = None, right_arm = None, hip_sway = None\<rparr>"
  let ?st = "initial_system\<lparr>pose_queue := \<lparr>maxsize = 10, items =
          [\<lparr>left_arm = None, right_arm = None, hip_sway = Some (Fin 200)\<rparr>]\<rparr>\<rparr>"
  have "items (pose_queue ?st) = ?pd\<lparr>hip_sway := Some (Fin 200)\<rparr> # []"
    by simp
  from hip_sway_mapping [OF this] show ?thesis
    by (simp add: initial_system_def spec_lateral_mm_def)
qed

subsection \<open>The antenna mapping\<close>

text \<open>
  C3: for every bundle with both arm angles present, \<open>aL\<close> and \<open>aR\<close>, the antenna pair
  sent is left \<open>-(pi - aL)\<close>, right \<open>pi - aR\<close>. Arm angle 0 gives magnitude \<open>pi\<close>,
  arm angle \<open>pi\<close> gives 0, and equal angles give commands of opposite sign.
\<close>

theorem antenna_mapping:
  assumes "items (pose_queue st) =
             pd\<lparr>left_arm := Some (Fin aL), right_arm := Some (Fin aR)\<rparr> # rest"
  shows "map snd (mini (control_reachy_body st)) =
           map snd (mini st) @ [[Fin (- (pi - aL)), Fin (pi - aR)]]
         \<and> antenna_command (pd\<lparr>left_arm := Some (Fin 0), right_arm := Some (Fin 0)\<rparr>) held =
             [Fin (- pi), Fin pi]
         \<and> antenna_command (pd\<lparr>left_arm := Some (Fin pi), right_arm := Some (Fin pi)\<rparr>) held =
             [Fin 0, Fin 0]
         \<and> antenna_command (pd\<lparr>left_arm := Some (Fin a), right_arm := Some (Fin a)\<rparr>) held =
             [fl_neg (Fin (pi - a)), Fin (pi - a)]"
proof -
  obtain h where h:
    "head_command (pd\<lparr>left_arm := Some (Fin aL), right_arm := Some (Fin aR)\<rparr>)
       (last_head_pose st) = Inr h"
    using head_command_total by blast
  have "map snd (mini (control_reachy_body st)) =
          map snd (mini st) @ [[Fin (- (pi - aL)), Fin (pi - aR)]]"
    using control_body_sends [OF assms h] by (simp add: antenna_both)
  then show ?thesis by (simp add: antenna_both)
qed

theorem antenna_mapping_witness:
  "map snd (mini (control_reachy_body
      (initial_system\<lparr>pose_queue := \<lparr>maxsize = 10, items =
          [\<lparr>left_arm = Some (Fin 1), right_arm = Some (Fin 2), hip_sway = None\<rparr>]\<rparr>\<rparr>))) =
     [[Fin (- (pi - 1)), Fin (pi - 2)]]"
proof -
  let ?pd = "\<lparr>left_arm = None, right_arm = None, hip_sway = None\<rparr>"
  let ?st = "initial_system\<lparr>pose_queue := \<lparr>maxsize = 10, items =
          [\<lparr>left_arm = Some (Fin 1), right_arm = Some (Fin 2), hip_sway = None\<rparr>]\<rparr>\<rparr>"
  have "items (pose_queue ?st) = ?pd\<lparr>left_arm := Some (Fin 1), right_arm := Some (Fin 2)\<rparr> # []"
    by simp
  from antenna_mapping [OF this] show ?thesis
    by (simp add: initial_system_def)
qed

subsection \<open>Hold-last-value, channel by channel\<close>

text \<open>
  C5: a cycle that consumes a bundle without \<open>hip_sway\<close> but with both arm angles sends
  the lateral component held from the previous cycle and antennas recomputed from the new
  angles; a cycle that consumes a bundle lacking an arm angle but with \<open>hip_sway\<close>
  sends the held antenna pair and a recomputed lateral component. What is held after a
  cycle is exactly the target that cycle sent.
\<close>

theorem hold_last_value:
  assumes "items (pose_queue s) = pd # rest"
  shows "(hip_sway pd = None \<and> left_arm pd = Some aL \<and> right_arm pd = Some aR \<longrightarrow>
            mini (control_reachy_body s) =
              mini s @ [(last_head_pose s, [fl_neg (fl_sub (Fin pi) aL), fl_sub (Fin pi) aR])])
         \<and> ((left_arm pd = None \<or> right_arm pd = None) \<and> hip_sway pd = Some (Fin v) \<longrightarrow>
            mini (control_reachy_body s) =
              mini s @ [(HeadPose (Fin (spec_lateral_mm v)), last_antennas s)])
         \<and> last (mini (control_reachy_body s)) =
             (last_head_pose (control_reachy_body s), last_antennas (control_reachy_body s))"
proof (intro conjI impI)
  assume a: "hip_sway pd = None \<and> left_arm pd = Some aL \<and> right_arm pd = Some aR"
  then have h: "head_command pd (last_head_pose s) = Inr (last_head_pose s)"
    by (simp add: head_held)
  from a have "pd = pd\<lparr>left_arm := Some aL, right_arm := Some aR\<rparr>" by simp
  then have "antenna_command pd (last_antennas s) =
               [fl_neg (fl_sub (Fin pi) aL), fl_sub (Fin pi) aR]"
    using antenna_both [where pd = pd and l = aL and r = aR and held = "last_antennas s"] by simp
  with control_body_sends [OF assms h]
  show "mini (control_reachy_body s) =
          mini s @ [(last_head_pose s, [fl_neg (fl_sub (Fin pi) aL), fl_sub (Fin pi) aR])]"
    by simp
next
  assume a: "(left_arm pd = None \<or> right_arm pd = None) \<and> hip_sway pd = Some (Fin v)"
  then have "pd = pd\<lparr>hip_sway := Some (Fin v)\<rparr>" by simp
  then have h: "head_command pd (last_head_pose s) = Inr (HeadPose (Fin (spec_lateral_mm v)))"
    using head_command_spec [where pd = pd and s = v and held = "last_head_pose s"] by simp
  from a have "antenna_command pd (last_antennas s) = last_antennas s"
    by (simp add: antenna_held)
  with control_body_sends [OF assms h]
  show "mini (control_reachy_body s) =
          mini s @ [(HeadPose (Fin (spec_lateral_mm v)), last_antennas s)]"
    by simp
next
  obtain h where h: "head_command pd (last_head_pose s) = Inr h"
    using head_command_total by blast
  show "last (mini (control_reachy_body s)) =
          (last_head_pose (control_reachy_body s), last_antennas (control_reachy_body s))"
    using control_body_sends [OF assms h] by simp
qed

theorem hold_last_value_witness:
  "mini (control_reachy_body
      (initial_system\<lparr>pose_queue := \<lparr>maxsize = 10, items =
          [\<lparr>left_arm = Some (Fin 0), right_arm = Some (Fin 1), hip_sway = None\<rparr>]\<rparr>,
         last_head_pose := HeadPose (Fin 12), last_antennas := [Fin 1, Fin 2]\<rparr>)) =
     [(HeadPose (Fin 12), [Fin (- pi), Fin (pi - 1)])]
   \<and> mini (control_reachy_body
      (initial_system\<lparr>pose_queue := \<lparr>maxsize = 10, items =
          [\<lparr>left_arm = Some (Fin 0), right_arm = None, hip_sway = Some (Fin 80)\<rparr>]\<rparr>,
         last_head_pose := HeadPose (Fin 12), last_antennas := [Fin 1, Fin 2]\<rparr>)) =
     [(HeadPose (Fin (- 35)), [Fin 1, Fin 2])]"
proof -
  let ?p1 = "\<lparr>left_arm = Some (Fin 0), right_arm = Some (Fin 1), hip_sway = None\<rparr>"
  let ?p2 = "\<lparr>left_arm = Some (Fin 0), right_arm = None, hip_sway = Some (Fin 80)\<rparr>"
  let ?s1 = "initial_system\<lparr>pose_queue := \<lparr>maxsize = 10, items = [?p1]\<rparr>,
         last_head_pose := HeadPose (Fin 12), last_antennas := [Fin 1, Fin 2]\<rparr>"
  let ?s2 = "initial_system\<lparr>pose_queue := \<lparr>maxsize = 10, items = [?p2]\<rparr>,
         last_head_pose := HeadPose (Fin 12), last_antennas := [Fin 1, Fin 2]\<rparr>"
  have q1: "items (pose_queue ?s1) = ?p1 # []" by simp
  have q2: "items (pose_queue ?s2) = ?p2 # []" by simp
  have "mini (control_reachy_body ?s1) = [(HeadPose (Fin 12), [Fin (- pi), Fin (pi - 1)])]"
    using hold_last_value [OF q1, where aL = "Fin 0" and aR = "Fin 1"]
    by (simp add: initial_system_def)
  moreover
  have "mini (control_reachy_body ?s2) = [(HeadPose (Fin (- 35)), [Fin 1, Fin 2])]"
    using hold_last_value [OF q2, where v = 80]
    by (simp add: initial_system_def spec_lateral_mm_def)
  ultimately show ?thesis by simp
qed


section \<open>Properties of the geometry utility\<close>

lemma sum_squares_nonneg: "0 \<le> sum_list (map (\<lambda>x. x * x) (v :: real list))"
  by (induction v) simp_all

lemma linalg_norm_zero_iff: "linalg_norm v = 0 \<longleftrightarrow> (\<forall>x \<in> set v. x = 0)"
proof -
  have "sum_list (map (\<lambda>x. x * x) v) = 0 \<longleftrightarrow> (\<forall>x \<in> set v. x = 0)"
  proof (induction v)
    case Nil
    show ?case by simp
  next
    case (Cons y ys)
    have "y * y + sum_list (map (\<lambda>x. x * x) ys) = 0
            \<longleftrightarrow> y * y = 0 \<and> sum_list (map (\<lambda>x. x * x) ys) = 0"
      using sum_squares_nonneg [of ys] by (intro add_nonneg_eq_0_iff) simp_all
    with Cons show ?case by simp
  qed
  then show ?thesis by (simp add: linalg_norm_def)
qed

lemma linalg_norm_self_diff: "linalg_norm (map2 (-) a a) = 0"
  by (auto simp: linalg_norm_zero_iff zip_same)

lemma clipped_angle_range:
  "\<exists>r. np_arccos (np_clip (np_divide d n) (- 1) 1) = Fin r \<and> 0 \<le> r \<and> r \<le> pi" if "n \<noteq> 0"
proof -
  let ?v = "min (max (d / n) (- 1)) 1"
  have "- 1 \<le> ?v" "?v \<le> 1" by simp_all
  then have "0 \<le> arccos ?v" "arccos ?v \<le> pi"
    by (simp_all add: arccos_lbound arccos_ubound)
  with that show ?thesis by (simp add: np_divide_def)
qed

lemma calculate_angle_same_length:
  assumes "length a = length b" and "length c = length b"
  shows "calculate_angle a b c =
           (if linalg_norm (map2 (-) a b) = 0 \<or> linalg_norm (map2 (-) c b) = 0 then Inr (Fin 0)
            else Inr (np_arccos (np_clip
                   (np_divide (sum_list (map2 (*) (map2 (-) a b) (map2 (-) c b)))
                      (linalg_norm (map2 (-) a b) * linalg_norm (map2 (-) c b))) (- 1) 1)))"
  using assms by (simp add: calculate_angle_def np_subtract_def np_dot_def Let_def)

lemma calculate_angle_finite:
  assumes "length a = length b" and "length c = length b"
  shows "\<exists>r. calculate_angle a b c = Inr (Fin r) \<and> 0 \<le> r \<and> r \<le> pi"
proof (cases "linalg_norm (map2 (-) a b) = 0 \<or> linalg_norm (map2 (-) c b) = 0")
  case True
  then show ?thesis by (simp add: calculate_angle_same_length [OF assms])
next
  case False
  then have "linalg_norm (map2 (-) a b) * linalg_norm (map2 (-) c b) \<noteq> 0" by simp
  from clipped_angle_range [OF this] False show ?thesis
    by (simp add: calculate_angle_same_length [OF assms])
qed

text \<open>
  C8: \<open>calculate_angle\<close> is total on point triples of one dimension (two, three or any
  other number of coordinates): it returns a finite float and raises nothing. It returns
  exactly 0.0 whenever \<open>a - b\<close> or \<open>c - b\<close> has zero length, in particular when \<open>a = b\<close> or
  \<open>c = b\<close>; and where it divides, the divisor is not zero.
\<close>

theorem calculate_angle_total:
  assumes "length a = length b" and "length c = length b"
  shows "(\<exists>r. calculate_angle a b c = Inr (Fin r))
         \<and> (linalg_norm (map2 (-) a b) = 0 \<or> linalg_norm (map2 (-) c b) = 0
              \<longrightarrow> calculate_angle a b c = Inr (Fin 0))
         \<and> (a = b \<or> c = b \<longrightarrow> calculate_angle a b c = Inr (Fin 0))
         \<and> (linalg_norm (map2 (-) a b) \<noteq> 0 \<and> linalg_norm (map2 (-) c b) \<noteq> 0
              \<longrightarrow> linalg_norm (map2 (-) a b) * linalg_norm (map2 (-) c b) \<noteq> 0
                \<and> calculate_angle a b c =
                    Inr (Fin (arccos (min (max
                      (sum_list (map2 (*) (map2 (-) a b) (map2 (-) c b))
                         / (linalg_norm (map2 (-) a b) * linalg_norm (map2 (-) c b))) (- 1)) 1))))"
proof (intro conjI impI)
  show "\<exists>r. calculate_angle a b c = Inr (Fin r)"
    using calculate_angle_finite [OF assms] by blast
next
  assume "linalg_norm (map2 (-) a b) = 0 \<or> linalg_norm (map2 (-) c b) = 0"
  then show "calculate_angle a b c = Inr (Fin 0)"
    by (simp add: calculate_angle_same_length [OF assms])
next
  assume "a = b \<or> c = b"
  then have "linalg_norm (map2 (-) a b) = 0 \<or> linalg_norm (map2 (-) c b) = 0"
    using linalg_norm_self_diff by auto
  then show "calculate_angle a b c = Inr (Fin 0)"
    by (simp add: calculate_angle_same_length [OF assms])
next
  assume "linalg_norm (map2 (-) a b) \<noteq> 0 \<and> linalg_norm (map2 (-) c b) \<noteq> 0"
  then show "linalg_norm (map2 (-) a b) * linalg_norm (map2 (-) c b) \<noteq> 0" by simp
next
  assume n: "linalg_norm (map2 (-) a b) \<noteq> 0 \<and> linalg_norm (map2 (-) c b) \<noteq> 0"
  then show "calculate_angle a b c =
      Inr (Fin (arccos (min (max
        (sum_list (map2 (*) (map2 (-) a b) (map2 (-) c b))
           / (linalg_norm (map2 (-) a b) * linalg_norm (map2 (-) c b))) (- 1)) 1)))"
    by (simp add: calculate_angle_same_length [OF assms] np_divide_def)
qed

theorem calculate_angle_total_witness:
  "calculate_angle [0, 0] [0, 0] [1, 1] = Inr (Fin 0)
   \<and> calculate_angle [1, 0, 0] [0, 0, 0] [0, 1, 0] = Inr (Fin (pi / 2))"
proof -
  have "calculate_angle [0, 0] [0, 0] [1, 1] = Inr (Fin 0)"
    using calculate_angle_total [of "[0, 0]" "[0, 0]" "[1, 1]"] by simp
  moreover have "calculate_angle [1, 0, 0] [0, 0, 0] [0, 1, 0] = Inr (Fin (pi / 2))"
    using calculate_angle_total [of "[1, 0, 0]" "[0, 0, 0]" "[0, 1, 0]"]
    by (simp add: linalg_norm_def)
  ultimately show ?thesis by simp
qed

section \<open>Properties of the vision stage\<close>

lemma arm_angle_pos:
  "\<exists>r. calculate_angle (pos h) (pos s) (pos e) = Inr (Fin r) \<and> 0 \<le> r \<and> r \<le> pi"
  by (rule calculate_angle_finite) (simp_all add: pos_def)

lemma left_arm_angle_effect:
  "\<exists>x'. left_arm_angle h s e x = Inr x'
        \<and> trigger x' = trigger x \<and> offsets x' = offsets x
        \<and> plot (annotated_frame x') = plot (annotated_frame x)
        \<and> right_arm (latest_pose_data x') = right_arm (latest_pose_data x)
        \<and> hip_sway (latest_pose_data x') = hip_sway (latest_pose_data x)
        \<and> (left_arm (latest_pose_data x') = left_arm (latest_pose_data x)
             \<or> angle_or_none (left_arm (latest_pose_data x')))"
proof -
  obtain r where "calculate_angle (pos h) (pos s) (pos e) = Inr (Fin r)" "0 \<le> r" "r \<le> pi"
    using arm_angle_pos by blast
  then show ?thesis by (simp add: left_arm_angle_def putText_def)
qed

lemma right_arm_angle_effect:
  "\<exists>x'. right_arm_angle h s e x = Inr x'
        \<and> trigger x' = trigger x \<and> offsets x' = offsets x
        \<and> plot (annotated_frame x') = plot (annotated_frame x)
        \<and> left_arm (latest_pose_data x') = left_arm (latest_pose_data x)
        \<and> hip_sway (latest_pose_data x') = hip_sway (latest_pose_data x)
        \<and> (right_arm (latest_pose_data x') = right_arm (latest_pose_data x)
             \<or> angle_or_none (right_arm (latest_pose_data x')))"
proof -
  obtain r where "calculate_angle (pos h) (pos s) (pos e) = Inr (Fin r)" "0 \<le> r" "r \<le> pi"
    using arm_angle_pos by blast
  then show ?thesis by (simp add: right_arm_angle_def putText_def)
qed

lemma hip_sway_hidden:
  "\<not> visible lh rh ls rs \<Longrightarrow> hip_sway_calculation lh rh ls rs x = Inr x"
  by (auto simp: hip_sway_calculation_def visible_def)

lemma hip_sway_triggered:
  assumes "visible lh rh ls rs" and "trigger x"
  shows "\<exists>x'. hip_sway_calculation lh rh ls rs x = Inr x'
           \<and> trigger x' = False
           \<and> offsets x' = (offsets x)(''hip_sway'' \<mapsto> raw_sway lh rh ls rs)
           \<and> plot (annotated_frame x') = plot (annotated_frame x)
           \<and> left_arm (latest_pose_data x') = left_arm (latest_pose_data x)
           \<and> right_arm (latest_pose_data x') = right_arm (latest_pose_data x)
           \<and> hip_sway (latest_pose_data x') = Some (Fin 0)"
  using assms by (simp add: hip_sway_calculation_def visible_def Let_def putText_def)

lemma hip_sway_untriggered:
  assumes "visible lh rh ls rs" and "\<not> trigger x" and "offsets x ''hip_sway'' = Some z"
  shows "\<exists>x'. hip_sway_calculation lh rh ls rs x = Inr x'
           \<and> trigger x' = False
           \<and> offsets x' = offsets x
           \<and> plot (annotated_frame x') = plot (annotated_frame x)
           \<and> left_arm (latest_pose_data x') = left_arm (latest_pose_data x)
           \<and> right_arm (latest_pose_data x') = right_arm (latest_pose_data x)
           \<and> hip_sway (latest_pose_data x') = Some (Fin (raw_sway lh rh ls rs - z))"
  using assms by (simp add: hip_sway_calculation_def visible_def Let_def putText_def)

lemma hip_sway_keyerror:
  assumes "visible lh rh ls rs" and "\<not> trigger x" and "offsets x ''hip_sway'' = None"
  shows "hip_sway_calculation lh rh ls rs x = Inl KeyError"
  using assms by (simp add: hip_sway_calculation_def visible_def Let_def)

lemma keypoint_processing_short:
  "length p \<le> RIGHT_HIP \<Longrightarrow> keypoint_processing p x = x"
  by (simp add: keypoint_processing_def getitem_def LEFT_HIP_def RIGHT_HIP_def)

lemma keypoint_processing_long:
  assumes "RIGHT_HIP < length p"
  shows "\<exists>x2. trigger x2 = trigger x \<and> offsets x2 = offsets x
           \<and> plot (annotated_frame x2) = plot (annotated_frame x)
           \<and> hip_sway (latest_pose_data x2) = hip_sway (latest_pose_data x)
           \<and> (left_arm (latest_pose_data x2) = left_arm (latest_pose_data x)
                \<or> angle_or_none (left_arm (latest_pose_data x2)))
           \<and> (right_arm (latest_pose_data x2) = right_arm (latest_pose_data x)
                \<or> angle_or_none (right_arm (latest_pose_data x2)))
           \<and> keypoint_processing p x =
               (case hip_sway_calculation (p ! LEFT_HIP) (p ! RIGHT_HIP)
                       (p ! LEFT_SHOULDER) (p ! RIGHT_SHOULDER) x2 of
                  Inl e \<Rightarrow> x2
                | Inr x3 \<Rightarrow> x3)"
proof -
  obtain x1 where x1: "left_arm_angle (p ! LEFT_HIP) (p ! LEFT_SHOULDER) (p ! LEFT_ELBOW) x = Inr x1"
    "trigger x1 = trigger x" "offsets x1 = offsets x"
    "plot (annotated_frame x1) = plot (annotated_frame x)"
    "right_arm (latest_pose_data x1) = right_arm (latest_pose_data x)"
    "hip_sway (latest_pose_data x1) = hip_sway (latest_pose_data x)"
    "left_arm (latest_pose_data x1) = left_arm (latest_pose_data x)
       \<or> angle_or_none (left_arm (latest_pose_data x1))"
    using left_arm_angle_effect by blast
  obtain x2 where x2: "right_arm_angle (p ! RIGHT_HIP) (p ! RIGHT_SHOULDER) (p ! RIGHT_ELBOW) x1 = Inr x2"
    "trigger x2 = trigger x1" "offsets x2 = offsets x1"
    "plot (annotated_frame x2) = plot (annotated_frame x1)"
    "left_arm (latest_pose_data x2) = left_arm (latest_pose_data x1)"
    "hip_sway (latest_pose_data x2) = hip_sway (latest_pose_data x1)"
    "right_arm (latest_pose_data x2) = right_arm (latest_pose_data x1)
       \<or> angle_or_none (right_arm (latest_pose_data x2))"
    using right_arm_angle_effect by blast
  have idx: "getitem p LEFT_HIP = Inr (p ! LEFT_HIP)" "getitem p RIGHT_HIP = Inr (p ! RIGHT_HIP)"
    "getitem p LEFT_SHOULDER = Inr (p ! LEFT_SHOULDER)"
    "getitem p RIGHT_SHOULDER = Inr (p ! RIGHT_SHOULDER)"
    "getitem p LEFT_ELBOW = Inr (p ! LEFT_ELBOW)" "getitem p RIGHT_ELBOW = Inr (p ! RIGHT_ELBOW)"
    using assms
    by (simp_all add: getitem_def LEFT_HIP_def RIGHT_HIP_def LEFT_SHOULDER_def
        RIGHT_SHOULDER_def LEFT_ELBOW_def RIGHT_ELBOW_def)
  have "keypoint_processing p x =
          (case hip_sway_calculation (p ! LEFT_HIP) (p ! RIGHT_HIP)
                  (p ! LEFT_SHOULDER) (p ! RIGHT_SHOULDER) x2 of
             Inl e \<Rightarrow> x2
           | Inr x3 \<Rightarrow> x3)"
    by (simp add: keypoint_processing_def idx x1(1) x2(1))
  with x1 x2 show ?thesis by (intro exI [of _ x2]) auto
qed

lemma keypoint_processing_triggered:
  assumes "RIGHT_HIP < length p"
    and "visible (p ! LEFT_HIP) (p ! RIGHT_HIP) (p ! LEFT_SHOULDER) (p ! RIGHT_SHOULDER)"
    and "trigger x"
  shows "trigger (keypoint_processing p x) = False
         \<and> offsets (keypoint_processing p x) = (offsets x)(''hip_sway'' \<mapsto> frame_raw_sway p)
         \<and> plot (annotated_frame (keypoint_processing p x)) = plot (annotated_frame x)
         \<and> hip_sway (latest_pose_data (keypoint_processing p x)) = Some (Fin 0)"
proof -
  obtain x2 where x2: "trigger x2 = trigger x" "offsets x2 = offsets x"
    "plot (annotated_frame x2) = plot (annotated_frame x)"
    and kp: "keypoint_processing p x =
               (case hip_sway_calculation (p ! LEFT_HIP) (p ! RIGHT_HIP)
                       (p ! LEFT_SHOULDER) (p ! RIGHT_SHOULDER) x2 of
                  Inl e \<Rightarrow> x2
                | Inr x3 \<Rightarrow> x3)"
    using keypoint_processing_long [OF assms(1), of x] by blast
  from assms(3) x2(1) have "trigger x2" by simp
  from hip_sway_triggered [OF assms(2) this] x2 kp show ?thesis
    by (auto simp: frame_raw_sway_def)
qed

lemma keypoint_processing_untriggered:
  assumes "RIGHT_HIP < length p"
    and "visible (p ! LEFT_HIP) (p ! RIGHT_HIP) (p ! LEFT_SHOULDER) (p ! RIGHT_SHOULDER)"
    and "\<not> trigger x" and "offsets x ''hip_sway'' = Some z"
  shows "trigger (keypoint_processing p x) = False
         \<and> offsets (keypoint_processing p x) = offsets x
         \<and> plot (annotated_frame (keypoint_processing p x)) = plot (annotated_frame x)
         \<and> hip_sway (latest_pose_data (keypoint_processing p x)) = Some (Fin (frame_raw_sway p - z))"
proof -
  obtain x2 where x2: "trigger x2 = trigger x" "offsets x2 = offsets x"
    "plot (annotated_frame x2) = plot (annotated_frame x)"
    and kp: "keypoint_processing p x =
               (case hip_sway_calculation (p ! LEFT_HIP) (p ! RIGHT_HIP)
                       (p ! LEFT_SHOULDER) (p ! RIGHT_SHOULDER) x2 of
                  Inl e \<Rightarrow> x2
                | Inr x3 \<Rightarrow> x3)"
    using keypoint_processing_long [OF assms(1), of x] by blast
  from assms(3,4) x2 have "\<not> trigger x2" "offsets x2 ''hip_sway'' = Some z" by simp_all
  from hip_sway_untriggered [OF assms(2) this] x2 kp show ?thesis
    by (auto simp: frame_raw_sway_def)
qed

lemma keypoint_processing_hidden:
  assumes "\<not> (RIGHT_HIP < length p
              \<and> visible (p ! LEFT_HIP) (p ! RIGHT_HIP) (p ! LEFT_SHOULDER) (p ! RIGHT_SHOULDER))"
  shows "trigger (keypoint_processing p x) = trigger x
         \<and> offsets (keypoint_processing p x) = offsets x
         \<and> plot (annotated_frame (keypoint_processing p x)) = plot (annotated_frame x)
         \<and> hip_sway (latest_pose_data (keypoint_processing p x)) = hip_sway (latest_pose_data x)"
proof (cases "RIGHT_HIP < length p")
  case False
  then show ?thesis by (simp add: keypoint_processing_short)
next
  case True
  with assms have hid:
    "\<not> visible (p ! LEFT_HIP) (p ! RIGHT_HIP) (p ! LEFT_SHOULDER) (p ! RIGHT_SHOULDER)" by simp
  obtain x2 where x2: "trigger x2 = trigger x" "offsets x2 = offsets x"
    "plot (annotated_frame x2) = plot (annotated_frame x)"
    "hip_sway (latest_pose_data x2) = hip_sway (latest_pose_data x)"
    and kp: "keypoint_processing p x =
               (case hip_sway_calculation (p ! LEFT_HIP) (p ! RIGHT_HIP)
                       (p ! LEFT_SHOULDER) (p ! RIGHT_SHOULDER) x2 of
                  Inl e \<Rightarrow> x2
                | Inr x3 \<Rightarrow> x3)"
    using keypoint_processing_long [OF True, of x] by blast
  from kp hip_sway_hidden [OF hid] x2 show ?thesis by simp
qed

lemma frame_result_no_person: "frame_result plotted (Some []) s = None"
  by (simp add: frame_result_def try_block_def)

lemma frame_result_no_keypoints:
  "frame_result plotted None s =
     Some \<lparr>annotated_frame = \<lparr>plot = plotted, labels = []\<rparr>, latest_pose_data = no_pose_data,
           trigger = calibrate_event s, offsets = pose_zero_offsets s\<rparr>"
  by (simp add: frame_result_def try_block_def)

lemma frame_result_person:
  "frame_result plotted (Some (p # others)) s =
     Some (keypoint_processing p
       \<lparr>annotated_frame = \<lparr>plot = plotted, labels = []\<rparr>, latest_pose_data = no_pose_data,
        trigger = calibrate_event s, offsets = pose_zero_offsets s\<rparr>)"
  by (simp add: frame_result_def try_block_def)

lemma sway_computed_person:
  "sway_computed (Some (p # others)) \<longleftrightarrow>
     RIGHT_HIP < length p
     \<and> visible (p ! LEFT_HIP) (p ! RIGHT_HIP) (p ! LEFT_SHOULDER) (p ! RIGHT_SHOULDER)"
  by (simp add: sway_computed_def visible_def)

lemma yolo_loop_body_total:
  "yolo_loop_body plotted keypoints s =
     (case frame_result plotted keypoints s of
        None \<Rightarrow> Inr s
      | Some x \<Rightarrow>
          Inr (if full (frame_queue s)
               then s\<lparr>calibrate_event := trigger x, pose_zero_offsets := offsets x\<rparr>
               else s\<lparr>calibrate_event := trigger x, pose_zero_offsets := offsets x,
                      frame_queue := (frame_queue s)\<lparr>items := items (frame_queue s)
                        @ [(annotated_frame x, latest_pose_data x)]\<rparr>\<rparr>))"
  by (simp add: yolo_loop_body_def put_nowait_def Let_def split: option.splits)

lemma frame_result_triggered:
  assumes "sway_computed (Some (p # others))" and "calibrate_event s"
  shows "\<exists>x. frame_result plotted (Some (p # others)) s = Some x
           \<and> trigger x = False
           \<and> offsets x = (pose_zero_offsets s)(''hip_sway'' \<mapsto> frame_raw_sway p)
           \<and> hip_sway (latest_pose_data x) = Some (Fin 0)"
proof -
  let ?x0 = "\<lparr>annotated_frame = \<lparr>plot = plotted, labels = []\<rparr>, latest_pose_data = no_pose_data,
        trigger = calibrate_event s, offsets = pose_zero_offsets s\<rparr>"
  from assms(1) have l: "RIGHT_HIP < length p"
    and v: "visible (p ! LEFT_HIP) (p ! RIGHT_HIP) (p ! LEFT_SHOULDER) (p ! RIGHT_SHOULDER)"
    by (simp_all add: sway_computed_person)
  from assms(2) have t: "trigger ?x0" by simp
  have "offsets ?x0 = pose_zero_offsets s" by simp
  with keypoint_processing_triggered [OF l v t] show ?thesis
    by (simp only: frame_result_person) simp
qed

lemma frame_result_untriggered:
  assumes "sway_computed (Some (p # others))" and "\<not> calibrate_event s"
    and "pose_zero_offsets s ''hip_sway'' = Some z"
  shows "\<exists>x. frame_result plotted (Some (p # others)) s = Some x
           \<and> trigger x = False
           \<and> offsets x = pose_zero_offsets s
           \<and> hip_sway (latest_pose_data x) = Some (Fin (frame_raw_sway p - z))"
proof -
  let ?x0 = "\<lparr>annotated_frame = \<lparr>plot = plotted, labels = []\<rparr>, latest_pose_data = no_pose_data,
        trigger = calibrate_event s, offsets = pose_zero_offsets s\<rparr>"
  from assms(1) have l: "RIGHT_HIP < length p"
    and v: "visible (p ! LEFT_HIP) (p ! RIGHT_HIP) (p ! LEFT_SHOULDER) (p ! RIGHT_SHOULDER)"
    by (simp_all add: sway_computed_person)
  from assms(2) have t: "\<not> trigger ?x0" by simp
  from assms(3) have o: "offsets ?x0 ''hip_sway'' = Some z" by simp
  have "offsets ?x0 = pose_zero_offsets s" by simp
  with keypoint_processing_untriggered [OF l v t o] show ?thesis
    by (simp only: frame_result_person) simp
qed

lemma frame_result_not_computed:
  assumes "\<not> sway_computed keypoints" and "frame_result plotted keypoints s = Some x"
  shows "trigger x = calibrate_event s \<and> offsets x = pose_zero_offsets s
         \<and> hip_sway (latest_pose_data x) = None"
proof -
  let ?x0 = "\<lparr>annotated_frame = \<lparr>plot = plotted, labels = []\<rparr>, latest_pose_data = no_pose_data,
        trigger = calibrate_event s, offsets = pose_zero_offsets s\<rparr>"
  have x0: "trigger ?x0 = calibrate_event s" "offsets ?x0 = pose_zero_offsets s"
    "hip_sway (latest_pose_data ?x0) = None"
    by (simp_all add: no_pose_data_def)
  show ?thesis
  proof (cases keypoints)
    case None
    with assms(2) have "x = ?x0" by (simp add: frame_result_no_keypoints)
    with x0 show ?thesis by simp
  next
    case (Some ps)
    show ?thesis
    proof (cases ps)
      case Nil
      with Some assms(2) show ?thesis by (simp add: frame_result_no_person)
    next
      case (Cons p others)
      with Some assms(1) have
        "\<not> (RIGHT_HIP < length p
            \<and> visible (p ! LEFT_HIP) (p ! RIGHT_HIP) (p ! LEFT_SHOULDER) (p ! RIGHT_SHOULDER))"
        by (simp add: sway_computed_person)
      from keypoint_processing_hidden [OF this, of ?x0]
      have h: "trigger (keypoint_processing p ?x0) = trigger ?x0"
        "offsets (keypoint_processing p ?x0) = offsets ?x0"
        "hip_sway (latest_pose_data (keypoint_processing p ?x0)) = hip_sway (latest_pose_data ?x0)"
        by blast+
      from Some Cons assms(2) have "x = keypoint_processing p ?x0"
        by (simp add: frame_result_person)
      with h x0 show ?thesis by (simp only:)
    qed
  qed
qed

lemma untriggered_stays:
  assumes "\<not> calibrate_event s"
  shows "\<exists>s'. yolo_loop_body plotted keypoints s = Inr s'
           \<and> \<not> calibrate_event s' \<and> pose_zero_offsets s' = pose_zero_offsets s
           \<and> stop_signal s' = stop_signal s"
proof (cases "frame_result plotted keypoints s")
  case None
  with assms show ?thesis by (simp add: yolo_loop_body_total)
next
  case (Some x)
  have "trigger x = False \<and> offsets x = pose_zero_offsets s"
  proof (cases "sway_computed keypoints")
    case False
    from frame_result_not_computed [OF this Some] assms show ?thesis by simp
  next
    case True
    then obtain p others where k: "keypoints = Some (p # others)"
      by (auto simp: sway_computed_def split: option.splits list.splits)
    let ?x0 = "\<lparr>annotated_frame = \<lparr>plot = plotted, labels = []\<rparr>, latest_pose_data = no_pose_data,
        trigger = calibrate_event s, offsets = pose_zero_offsets s\<rparr>"
    from True k have long: "RIGHT_HIP < length p" by (simp add: sway_computed_person)
    obtain x2 where x2: "trigger x2 = trigger ?x0" "offsets x2 = offsets ?x0"
      and kp: "keypoint_processing p ?x0 =
                 (case hip_sway_calculation (p ! LEFT_HIP) (p ! RIGHT_HIP)
                         (p ! LEFT_SHOULDER) (p ! RIGHT_SHOULDER) x2 of
                    Inl e \<Rightarrow> x2
                  | Inr x3 \<Rightarrow> x3)"
      using keypoint_processing_long [OF long, of ?x0] by blast
    from Some k have x: "x = keypoint_processing p ?x0" by (simp add: frame_result_person)
    from x2 assms have nt: "\<not> trigger x2" by simp
    show ?thesis
    proof (cases "hip_sway_calculation (p ! LEFT_HIP) (p ! RIGHT_HIP)
                    (p ! LEFT_SHOULDER) (p ! RIGHT_SHOULDER) x2")
      case (Inl e)
      with kp x x2 assms show ?thesis by simp
    next
      case (Inr x3)
      with nt have "trigger x3 = False \<and> offsets x3 = offsets x2"
        by (auto simp: hip_sway_calculation_def Let_def split: if_splits option.splits)
      with kp x x2 Inr show ?thesis by simp
    qed
  qed
  with Some show ?thesis by (simp add: yolo_loop_body_total)
qed

lemma untriggered_loop:
  assumes "\<not> calibrate_event s"
  shows "\<exists>s'. yolo_loop rs s = Inr s'
           \<and> \<not> calibrate_event s' \<and> pose_zero_offsets s' = pose_zero_offsets s"
  using assms
proof (induction rs arbitrary: s)
  case Nil
  then show ?case by simp
next
  case (Cons r rs)
  show ?case
  proof (cases "stop_signal s")
    case True
    with Cons.prems show ?thesis by simp
  next
    case False
    show ?thesis
    proof (cases r)
      case ReadFailed
      with False Cons.prems show ?thesis by simp
    next
      case (Frame plotted keypoints)
      obtain s1 where s1: "yolo_loop_body plotted keypoints s = Inr s1"
        "\<not> calibrate_event s1" "pose_zero_offsets s1 = pose_zero_offsets s"
        using untriggered_stays [OF Cons.prems] by blast
      from Cons.IH [OF s1(2)] s1 Frame False show ?thesis by simp
    qed
  qed
qed

lemma sample_person_computed:
  "sway_computed (Some [sample_person dx]) \<and> frame_raw_sway (sample_person dx) = dx"
  by (simp add: sway_computed_def frame_raw_sway_def raw_sway_def sample_person_def kpt_def
      LEFT_HIP_def RIGHT_HIP_def LEFT_SHOULDER_def RIGHT_SHOULDER_def CONF_THRESHOLD_def
      add_divide_distrib)

subsection \<open>A frame without a detected person\<close>

text \<open>
  C7 says that a frame on which the detector finds no person is still put on the frame
  queue, with an all-\<open>None\<close> bundle. The code does not do that: the \<open>continue\<close> inside the
  \<open>try\<close> block leaves the pass before the queue is reached, so the whole state, frame queue
  included, is unchanged. The sibling path, a detector result without a keypoints object,
  falls through the \<open>except\<close> and does put the plotted frame with the all-\<open>None\<close> bundle.
\<close>

theorem no_person_frame_dropped:
  "yolo_loop_body plotted (Some []) s = Inr s
   \<and> yolo_loop_body plotted None initial_system =
       Inr (initial_system\<lparr>frame_queue :=
              \<lparr>maxsize = 2, items = [(\<lparr>plot = plotted, labels = []\<rparr>, no_pose_data)]\<rparr>\<rparr>)"
  by (simp add: yolo_loop_body_total frame_result_no_person frame_result_no_keypoints
      initial_system_def Queue_def full_def)

subsection \<open>Backpressure\<close>

text \<open>
  C6: on a full queue \<open>put_nowait\<close> returns at once with \<open>Full\<close>; the vision pass that
  meets a full frame queue, and the display pass that meets a full signal queue, both end
  normally and leave that queue exactly as it was. The frame queue of capacity 2 is full
  with two items, the signal queue of capacity 10 with ten.
\<close>

theorem backpressure_drop:
  "(full q \<longrightarrow> put_nowait q item = Inl Full)
   \<and> (full (frame_queue s) \<longrightarrow>
        (\<exists>s'. yolo_loop_body plotted keypoints s = Inr s' \<and> frame_queue s' = frame_queue s))
   \<and> (full (pose_queue s) \<longrightarrow>
        (\<exists>s'. main_body key s = Inr s' \<and> pose_queue s' = pose_queue s))
   \<and> full \<lparr>maxsize = 2, items = [a, b]\<rparr>
   \<and> (length xs = 10 \<longrightarrow> full \<lparr>maxsize = 10, items = xs\<rparr>)"
proof (intro conjI impI)
  assume "full q"
  then show "put_nowait q item = Inl Full" by (simp add: put_nowait_def)
next
  assume "full (frame_queue s)"
  then show "\<exists>s'. yolo_loop_body plotted keypoints s = Inr s' \<and> frame_queue s' = frame_queue s"
    by (cases "frame_result plotted keypoints s") (simp_all add: yolo_loop_body_total)
next
  assume f: "full (pose_queue s)"
  show "\<exists>s'. main_body key s = Inr s' \<and> pose_queue s' = pose_queue s"
  proof (cases "items (frame_queue s)")
    case Nil
    then show ?thesis by (simp add: main_body_def get_timeout_def)
  next
    case (Cons fr frs)
    obtain shown pd where "fr = (shown, pd)" by (cases fr)
    with Cons f show ?thesis
      by (simp add: main_body_def get_timeout_def put_nowait_def Let_def)
  qed
next
  show "full \<lparr>maxsize = 2, items = [a, b]\<rparr>" by (simp add: full_def)
next
  assume "length xs = 10"
  then show "full \<lparr>maxsize = 10, items = xs\<rparr>" by (simp add: full_def)
qed

theorem backpressure_drop_witness:
  "(\<exists>s'. yolo_loop_body 7 None
           (initial_system\<lparr>frame_queue := \<lparr>maxsize = 2, items =
              [(\<lparr>plot = 1, labels = []\<rparr>, no_pose_data), (\<lparr>plot = 2, labels = []\<rparr>, no_pose_data)]\<rparr>\<rparr>)
         = Inr s'
       \<and> items (frame_queue s') =
           [(\<lparr>plot = 1, labels = []\<rparr>, no_pose_data), (\<lparr>plot = 2, labels = []\<rparr>, no_pose_data)])
   \<and> (\<exists>s'. main_body 0
           (initial_system\<lparr>frame_queue := \<lparr>maxsize = 2, items =
              [(\<lparr>plot = 1, labels = []\<rparr>, no_pose_data)]\<rparr>,
             pose_queue := \<lparr>maxsize = 10, items = replicate 10 no_pose_data\<rparr>\<rparr>)
         = Inr s'
       \<and> items (pose_queue s') = replicate 10 no_pose_data)"
proof -
  let ?fq = "\<lparr>maxsize = 2, items =
     [(\<lparr>plot = 1, labels = []\<rparr>, no_pose_data), (\<lparr>plot = 2, labels = []\<rparr>, no_pose_data)]\<rparr>"
  let ?s1 = "initial_system\<lparr>frame_queue := ?fq\<rparr>"
  let ?s2 = "initial_system\<lparr>frame_queue := \<lparr>maxsize = 2, items =
              [(\<lparr>plot = 1, labels = []\<rparr>, no_pose_data)]\<rparr>,
             pose_queue := \<lparr>maxsize = 10, items = replicate 10 no_pose_data\<rparr>\<rparr>"
  have f1: "full (frame_queue ?s1)" by (simp add: full_def)
  have f2: "full (pose_queue ?s2)" by (simp add: full_def)
  have "\<exists>s'. yolo_loop_body 7 None ?s1 = Inr s' \<and> frame_queue s' = frame_queue ?s1"
    using backpressure_drop [where s = ?s1 and plotted = 7 and keypoints = None,
        THEN conjunct2, THEN conjunct1] f1
    by (rule mp)
  moreover
  have "\<exists>s'. main_body 0 ?s2 = Inr s' \<and> pose_queue s' = pose_queue ?s2"
    using backpressure_drop [where s = ?s2 and key = 0,
        THEN conjunct2, THEN conjunct2, THEN conjunct1] f2
    by (rule mp)
  ultimately show ?thesis by auto
qed

lemma yolo_loop_body_calibration:
  assumes "frame_result plotted keypoints s = Some x"
  shows "\<exists>s'. yolo_loop_body plotted keypoints s = Inr s'
           \<and> calibrate_event s' = trigger x \<and> pose_zero_offsets s' = offsets x
           \<and> stop_signal s' = stop_signal s"
  using assms by (simp add: yolo_loop_body_total)

subsection \<open>Calibration\<close>

text \<open>
  C4: when the recalibration trigger is set on a frame whose raw sway \<open>R\<close> is computed, the
  vision stage stores \<open>R\<close> as the \<open>hip_sway\<close> offset, clears the trigger and reports a
  relative sway of 0 for that frame. The trigger is consumed once: however many frames
  follow without the trigger being set again, the offset stays \<open>R\<close>, so every later frame
  with raw sway \<open>R'\<close> reports \<open>R' - R\<close>, which is 0 whenever \<open>R' = R\<close>.
\<close>

theorem calibration_single_shot:
  assumes "sway_computed (Some (p # others))" and "calibrate_event s"
  shows "\<exists>x s1. frame_result plotted (Some (p # others)) s = Some x
           \<and> hip_sway (latest_pose_data x) = Some (Fin 0)
           \<and> yolo_loop_body plotted (Some (p # others)) s = Inr s1
           \<and> \<not> calibrate_event s1
           \<and> pose_zero_offsets s1 = (pose_zero_offsets s)(''hip_sway'' \<mapsto> frame_raw_sway p)
           \<and> (\<forall>rs. \<exists>s2. yolo_loop rs s1 = Inr s2
                 \<and> \<not> calibrate_event s2
                 \<and> pose_zero_offsets s2 = pose_zero_offsets s1
                 \<and> (\<forall>plotted' p' others'. sway_computed (Some (p' # others')) \<longrightarrow>
                       (\<exists>x'. frame_result plotted' (Some (p' # others')) s2 = Some x'
                          \<and> hip_sway (latest_pose_data x') =
                              Some (Fin (frame_raw_sway p' - frame_raw_sway p)))))"
proof -
  obtain x where x: "frame_result plotted (Some (p # others)) s = Some x"
    "trigger x = False"
    "offsets x = (pose_zero_offsets s)(''hip_sway'' \<mapsto> frame_raw_sway p)"
    "hip_sway (latest_pose_data x) = Some (Fin 0)"
    using frame_result_triggered [OF assms] by blast
  obtain s1 where s1: "yolo_loop_body plotted (Some (p # others)) s = Inr s1"
    "calibrate_event s1 = trigger x" "pose_zero_offsets s1 = offsets x"
    using yolo_loop_body_calibration [OF x(1)] by blast
  from s1 x have c1: "\<not> calibrate_event s1"
    and o1: "pose_zero_offsets s1 = (pose_zero_offsets s)(''hip_sway'' \<mapsto> frame_raw_sway p)"
    by simp_all
  have later: "\<exists>s2. yolo_loop rs s1 = Inr s2
                 \<and> \<not> calibrate_event s2
                 \<and> pose_zero_offsets s2 = pose_zero_offsets s1
                 \<and> (\<forall>plotted' p' others'. sway_computed (Some (p' # others')) \<longrightarrow>
                       (\<exists>x'. frame_result plotted' (Some (p' # others')) s2 = Some x'
                          \<and> hip_sway (latest_pose_data x') =
                              Some (Fin (frame_raw_sway p' - frame_raw_sway p))))" for rs
  proof -
    obtain s2 where s2: "yolo_loop rs s1 = Inr s2" "\<not> calibrate_event s2"
      "pose_zero_offsets s2 = pose_zero_offsets s1"
      using untriggered_loop [OF c1] by blast
    from s2(3) o1 have z: "pose_zero_offsets s2 ''hip_sway'' = Some (frame_raw_sway p)"
      by simp
    have "\<exists>x'. frame_result plotted' (Some (p' # others')) s2 = Some x'
            \<and> hip_sway (latest_pose_data x') = Some (Fin (frame_raw_sway p' - frame_raw_sway p))"
      if "sway_computed (Some (p' # others'))" for plotted' p' others'
      using frame_result_untriggered [OF that s2(2) z] by blast
    with s2 show ?thesis by blast
  qed
  from x(1,4) s1(1) c1 o1 later show ?thesis by blast
qed

theorem calibration_single_shot_witness:
  "\<exists>x s1 x'.
      frame_result 1 (Some [sample_person 30]) (initial_system\<lparr>calibrate_event := True\<rparr>) = Some x
      \<and> hip_sway (latest_pose_data x) = Some (Fin 0)
      \<and> yolo_loop_body 1 (Some [sample_person 30]) (initial_system\<lparr>calibrate_event := True\<rparr>)
          = Inr s1
      \<and> \<not> calibrate_event s1
      \<and> pose_zero_offsets s1 ''hip_sway'' = Some 30
      \<and> frame_result 2 (Some [sample_person 42]) s1 = Some x'
      \<and> hip_sway (latest_pose_data x') = Some (Fin 12)"
proof -
  let ?s = "initial_system\<lparr>calibrate_event := True\<rparr>"
  have c: "sway_computed (Some (sample_person 30 # []))" "frame_raw_sway (sample_person 30) = 30"
    "sway_computed (Some (sample_person 42 # []))" "frame_raw_sway (sample_person 42) = 42"
    using sample_person_computed by simp_all
  have t: "calibrate_event ?s" by simp
  from calibration_single_shot [OF c(1) t, of 1]
  obtain x s1 where r: "frame_result 1 (Some [sample_person 30]) ?s = Some x"
    "hip_sway (latest_pose_data x) = Some (Fin 0)"
    "yolo_loop_body 1 (Some [sample_person 30]) ?s = Inr s1"
    "\<not> calibrate_event s1"
    "pose_zero_offsets s1 = (pose_zero_offsets ?s)(''hip_sway'' \<mapsto> frame_raw_sway (sample_person 30))"
    and l: "\<forall>rs. \<exists>s2. yolo_loop rs s1 = Inr s2
                 \<and> \<not> calibrate_event s2
                 \<and> pose_zero_offsets s2 = pose_zero_offsets s1
                 \<and> (\<forall>plotted' p' others'. sway_computed (Some (p' # others')) \<longrightarrow>
                       (\<exists>x'. frame_result plotted' (Some (p' # others')) s2 = Some x'
                          \<and> hip_sway (latest_pose_data x') =
                              Some (Fin (frame_raw_sway p' - frame_raw_sway (sample_person 30)))))"
    by blast
  from l obtain s2 where s2: "yolo_loop [] s1 = Inr s2"
    and inner: "\<forall>plotted' p' others'. sway_computed (Some (p' # others')) \<longrightarrow>
                  (\<exists>x'. frame_result plotted' (Some (p' # others')) s2 = Some x'
                     \<and> hip_sway (latest_pose_data x') =
                         Some (Fin (frame_raw_sway p' - frame_raw_sway (sample_person 30))))"
    by blast
  from s2 have "s2 = s1" by simp
  with inner c(3)
  obtain x' where "frame_result 2 (Some [sample_person 42]) s1 = Some x'"
    "hip_sway (latest_pose_data x') =
       Some (Fin (frame_raw_sway (sample_person 42) - frame_raw_sway (sample_person 30)))"
    by blast
  with r c(2,4) show ?thesis by auto
qed

subsection \<open>A trigger that arrives when the sway cannot be computed\<close>

lemma waiting_step:
  assumes "\<not> sway_computed keypoints"
  shows "\<exists>s'. yolo_loop_body plotted keypoints s = Inr s'
           \<and> calibrate_event s' = calibrate_event s
           \<and> pose_zero_offsets s' = pose_zero_offsets s
           \<and> stop_signal s' = stop_signal s"
proof (cases "frame_result plotted keypoints s")
  case None
  then show ?thesis by (simp add: yolo_loop_body_total)
next
  case (Some x)
  from frame_result_not_computed [OF assms Some] yolo_loop_body_calibration [OF Some]
  show ?thesis by auto
qed

lemma calibrating_step:
  assumes "sway_computed (Some (p # others))" and "calibrate_event s"
  shows "\<exists>s'. yolo_loop_body plotted (Some (p # others)) s = Inr s'
           \<and> \<not> calibrate_event s'
           \<and> pose_zero_offsets s' = (pose_zero_offsets s)(''hip_sway'' \<mapsto> frame_raw_sway p)"
proof -
  obtain x where x: "frame_result plotted (Some (p # others)) s = Some x"
    "trigger x = False"
    "offsets x = (pose_zero_offsets s)(''hip_sway'' \<mapsto> frame_raw_sway p)"
    using frame_result_triggered [OF assms] by blast
  from yolo_loop_body_calibration [OF x(1)] x(2,3) show ?thesis by auto
qed

lemma waiting_loop:
  assumes "calibrate_event s" and "\<not> stop_signal s"
    and "list_all (\<lambda>(plotted, keypoints). \<not> sway_computed keypoints) fs"
    and "sway_computed (Some (p # others))"
  shows "\<exists>s1 s2. yolo_loop (map (\<lambda>(plotted, keypoints). Frame plotted keypoints) fs) s = Inr s1
           \<and> calibrate_event s1 \<and> pose_zero_offsets s1 = pose_zero_offsets s
           \<and> yolo_loop (map (\<lambda>(plotted, keypoints). Frame plotted keypoints) fs
                         @ [Frame plotted (Some (p # others))]) s = Inr s2
           \<and> \<not> calibrate_event s2
           \<and> pose_zero_offsets s2 = (pose_zero_offsets s)(''hip_sway'' \<mapsto> frame_raw_sway p)"
  using assms(1,2,3)
proof (induction fs arbitrary: s)
  case Nil
  obtain s' where "yolo_loop_body plotted (Some (p # others)) s = Inr s'"
    "\<not> calibrate_event s'"
    "pose_zero_offsets s' = (pose_zero_offsets s)(''hip_sway'' \<mapsto> frame_raw_sway p)"
    using calibrating_step [OF assms(4) Nil(1)] by blast
  with Nil(1,2) show ?case by (simp add: fun_eq_iff)
next
  case (Cons f fs)
  obtain pl kp where f: "f = (pl, kp)" by (cases f)
  with Cons.prems(3) have nc: "\<not> sway_computed kp"
    and rest: "list_all (\<lambda>(plotted, keypoints). \<not> sway_computed keypoints) fs" by simp_all
  obtain s' where s': "yolo_loop_body pl kp s = Inr s'"
    "calibrate_event s' = calibrate_event s" "pose_zero_offsets s' = pose_zero_offsets s"
    "stop_signal s' = stop_signal s"
    using waiting_step [OF nc] by blast
  from s' Cons.prems have "calibrate_event s'" "\<not> stop_signal s'" by simp_all
  from Cons.IH [OF this rest] s' f Cons.prems(2) show ?case by simp
qed

text \<open>
  C10: the trigger is cleared only by a pass that also stores the current raw sway as the
  offset. With the trigger set, a pass on a frame whose raw sway is not computed (no
  keypoints object, no person, too short an array, or a hip or shoulder confidence of at
  most 0.5) leaves the trigger set and the offset unchanged; a pass that does clear the
  trigger ran on a frame whose sway was computed and stored that sway. After any run of
  frames without a computed sway the calibration therefore happens on the first frame
  that has one.
\<close>

theorem trigger_waits_for_sway:
  assumes "calibrate_event s" and "\<not> stop_signal s"
    and "list_all (\<lambda>(plotted, keypoints). \<not> sway_computed keypoints) fs"
    and "sway_computed (Some (p # others))"
  shows "(\<forall>pl kp. \<not> sway_computed kp \<longrightarrow>
            (\<exists>s'. yolo_loop_body pl kp s = Inr s'
               \<and> calibrate_event s' \<and> pose_zero_offsets s' = pose_zero_offsets s))
         \<and> (\<forall>pl kp s'. yolo_loop_body pl kp s = Inr s' \<and> \<not> calibrate_event s' \<longrightarrow>
               (\<exists>q qs. kp = Some (q # qs) \<and> sway_computed kp
                  \<and> pose_zero_offsets s' = (pose_zero_offsets s)(''hip_sway'' \<mapsto> frame_raw_sway q)))
         \<and> (\<exists>s1 s2.
               yolo_loop (map (\<lambda>(plotted, keypoints). Frame plotted keypoints) fs) s = Inr s1
               \<and> calibrate_event s1 \<and> pose_zero_offsets s1 = pose_zero_offsets s
               \<and> yolo_loop (map (\<lambda>(plotted, keypoints). Frame plotted keypoints) fs
                             @ [Frame plotted (Some (p # others))]) s = Inr s2
               \<and> \<not> calibrate_event s2
               \<and> pose_zero_offsets s2 = (pose_zero_offsets s)(''hip_sway'' \<mapsto> frame_raw_sway p))"
proof (intro conjI allI impI)
  fix pl kp
  assume "\<not> sway_computed kp"
  from waiting_step [OF this, of pl s] assms(1)
  show "\<exists>s'. yolo_loop_body pl kp s = Inr s'
          \<and> calibrate_event s' \<and> pose_zero_offsets s' = pose_zero_offsets s"
    by auto
next
  fix pl kp s'
  assume a: "yolo_loop_body pl kp s = Inr s' \<and> \<not> calibrate_event s'"
  have c: "sway_computed kp"
  proof (rule ccontr)
    assume "\<not> sway_computed kp"
    from waiting_step [OF this, of pl s] a assms(1) show False by auto
  qed
  then obtain q qs where k: "kp = Some (q # qs)"
    by (auto simp: sway_computed_def split: option.splits list.splits)
  with c have "sway_computed (Some (q # qs))" by simp
  from calibrating_step [OF this assms(1), of pl] a k
  have "pose_zero_offsets s' = (pose_zero_offsets s)(''hip_sway'' \<mapsto> frame_raw_sway q)"
    by auto
  with k c show "\<exists>q qs. kp = Some (q # qs) \<and> sway_computed kp
      \<and> pose_zero_offsets s' = (pose_zero_offsets s)(''hip_sway'' \<mapsto> frame_raw_sway q)"
    by blast
next
  show "\<exists>s1 s2.
         yolo_loop (map (\<lambda>(plotted, keypoints). Frame plotted keypoints) fs) s = Inr s1
         \<and> calibrate_event s1 \<and> pose_zero_offsets s1 = pose_zero_offsets s
         \<and> yolo_loop (map (\<lambda>(plotted, keypoints). Frame plotted keypoints) fs
                       @ [Frame plotted (Some (p # others))]) s = Inr s2
         \<and> \<not> calibrate_event s2
         \<and> pose_zero_offsets s2 = (pose_zero_offsets s)(''hip_sway'' \<mapsto> frame_raw_sway p)"
    by (rule waiting_loop [OF assms])
qed


theorem trigger_waits_for_sway_witness:
  "\<exists>s1 s2.
     yolo_loop [Frame 1 (Some []), Frame 2 None, Frame 3 (Some [[kpt 0]]),
                Frame 4 (Some [(sample_person 5)[11 := \<lparr>kx = 100, ky = 0, kconf = 1 / 2\<rparr>]])]
       (initial_system\<lparr>calibrate_event := True\<rparr>) = Inr s1
     \<and> calibrate_event s1 \<and> pose_zero_offsets s1 ''hip_sway'' = Some 0
     \<and> yolo_loop ([Frame 1 (Some []), Frame 2 None, Frame 3 (Some [[kpt 0]]),
                Frame 4 (Some [(sample_person 5)[11 := \<lparr>kx = 100, ky = 0, kconf = 1 / 2\<rparr>]])]
                @ [Frame 5 (Some [sample_person 30])])
         (initial_system\<lparr>calibrate_event := True\<rparr>) = Inr s2
     \<and> \<not> calibrate_event s2 \<and> pose_zero_offsets s2 ''hip_sway'' = Some 30"
proof -
  let ?s = "initial_system\<lparr>calibrate_event := True\<rparr>"
  let ?fs = "[(1, Some []), (2, None), (3, Some [[kpt 0]]),
              (4, Some [(sample_person 5)[11 := \<lparr>kx = 100, ky = 0, kconf = 1 / 2\<rparr>]])]"
  have a1: "calibrate_event ?s" by simp
  have a2: "\<not> stop_signal ?s" by (simp add: initial_system_def)
  have a3: "list_all (\<lambda>(plotted, keypoints). \<not> sway_computed keypoints) ?fs"
    by (simp add: sway_computed_def sample_person_def LEFT_HIP_def RIGHT_HIP_def
        CONF_THRESHOLD_def)
  have a4: "sway_computed (Some (sample_person 30 # []))"
    and r: "frame_raw_sway (sample_person 30) = 30"
    using sample_person_computed by simp_all
  from trigger_waits_for_sway [OF a1 a2 a3 a4, of 5, THEN conjunct2, THEN conjunct2]
  obtain s1 s2 where
    "yolo_loop (map (\<lambda>(plotted, keypoints). Frame plotted keypoints) ?fs) ?s = Inr s1"
    "calibrate_event s1" "pose_zero_offsets s1 = pose_zero_offsets ?s"
    "yolo_loop (map (\<lambda>(plotted, keypoints). Frame plotted keypoints) ?fs
                @ [Frame 5 (Some [sample_person 30])]) ?s = Inr s2"
    "\<not> calibrate_event s2"
    "pose_zero_offsets s2 = (pose_zero_offsets ?s)(''hip_sway'' \<mapsto> frame_raw_sway (sample_person 30))"
    by blast
  with r show ?thesis
    by (intro exI [of _ s1] exI [of _ s2]) (simp add: initial_system_def)
qed

section \<open>Properties of the vision stage in float32 arithmetic\<close>

lemma id_rounding: "float32_rounding id"
  by (simp add: float32_rounding_def)

lemma round_down_rounding: "float32_rounding round_down"
  unfolding float32_rounding_def round_down_def
  by (auto simp: abs_mult zero_le_mult_iff)

lemma angle_overflow:
  "calculate_angle32 id [2 ^ 67, 0] [0, 0] [2 ^ 67, 2 ^ 67] = Inr NaN"
  by (simp add: calculate_angle32_def np_subtract32_def linalg_norm32_def np_dot32_def
      f32_sub_def to_float32_def FLT_MAX_def Let_def)

text \<open>
  With finite coordinates as large as \<open>2 ^ 127\<close> the squares overflow: both norms and the
  dot product are infinite, the cosine is \<open>inf / inf\<close>, and the left arm angle of the
  emitted bundle is \<open>nan\<close>; the sum of the hip coordinates overflows and the hip sway is
  infinite. Every value on the way is zero or a power of two, so nothing is rounded and
  the identity is the rounding.
\<close>

theorem overflow_counterexample:
  "map_option latest_pose_data32
     (frame_result32 id 1 (Some [far_person]) False [''hip_sway'' \<mapsto> Fin 0])
   = Some \<lparr>left_arm = Some NaN, right_arm = Some (Fin 0), hip_sway = Some PosInf\<rparr>"
  by (simp add: frame_result32_def try_block32_def keypoint_processing32_def getitem_def
      far_person_def kpt_def kpt_at_def LEFT_HIP_def RIGHT_HIP_def LEFT_SHOULDER_def
      RIGHT_SHOULDER_def LEFT_ELBOW_def RIGHT_ELBOW_def CONF_THRESHOLD_def
      left_arm_angle32_def right_arm_angle32_def hip_sway_calculation32_def raw_sway32_def
      pos_def calculate_angle32_def np_subtract32_def linalg_norm32_def np_dot32_def
      f32_sub_def to_float32_def FLT_MAX_def Let_def no_pose_data_def putText_def)

lemma bounded_byE: "bounded_by M v \<Longrightarrow> (\<And>r. v = Fin r \<Longrightarrow> \<bar>r\<bar> \<le> M \<Longrightarrow> P) \<Longrightarrow> P"
  by (cases v) simp_all

lemma to_float32_within:
  assumes "float32_rounding rnd" and "\<bar>x\<bar> \<le> M" and "2 * M \<le> FLT_MAX"
  shows "to_float32 rnd x = Fin (rnd x) \<and> \<bar>rnd x\<bar> \<le> 2 * M"
proof -
  from assms(1) have "\<bar>rnd x\<bar> \<le> 2 * \<bar>x\<bar>" by (simp add: float32_rounding_def)
  with assms(2) have b: "\<bar>rnd x\<bar> \<le> 2 * M" by simp
  with assms(3) have "\<not> FLT_MAX < rnd x" "\<not> rnd x < - FLT_MAX" by simp_all
  with b show ?thesis by (simp add: to_float32_def)
qed

lemma rounding_nonneg: "float32_rounding rnd \<Longrightarrow> 0 \<le> x \<Longrightarrow> 0 \<le> rnd x"
  by (simp add: float32_rounding_def)

lemma rounding_zero: "float32_rounding rnd \<Longrightarrow> rnd 0 = 0"
proof -
  assume "float32_rounding rnd"
  then have "\<bar>rnd 0\<bar> \<le> 2 * \<bar>0::real\<bar>" unfolding float32_rounding_def by blast
  then show ?thesis by simp
qed

lemma add_within:
  assumes "float32_rounding rnd" and "bounded_by A a" and "bounded_by B b"
    and "2 * (A + B) \<le> FLT_MAX"
  shows "bounded_by (2 * (A + B)) (f32_add rnd a b)"
proof -
  from assms(2) obtain x where x: "a = Fin x" "\<bar>x\<bar> \<le> A" by (rule bounded_byE)
  from assms(3) obtain y where y: "b = Fin y" "\<bar>y\<bar> \<le> B" by (rule bounded_byE)
  from x y have "\<bar>x + y\<bar> \<le> A + B" by simp
  from to_float32_within [OF assms(1) this assms(4)] x y show ?thesis by simp
qed

lemma sub_within:
  assumes "float32_rounding rnd" and "bounded_by A a" and "bounded_by B b"
    and "2 * (A + B) \<le> FLT_MAX"
  shows "bounded_by (2 * (A + B)) (f32_sub rnd a b)"
proof -
  from assms(3) have "bounded_by B (fl_neg b)" by (cases b) simp_all
  from add_within [OF assms(1,2) this assms(4)] show ?thesis by (simp add: f32_sub_def)
qed

lemma to_float32_not_nan: "to_float32 rnd x \<noteq> NaN"
  by (simp add: to_float32_def Let_def)

lemma clip_unit:
  "v \<noteq> NaN \<Longrightarrow> \<exists>w. np_clip v (- 1) 1 = Fin w \<and> - 1 \<le> w \<and> w \<le> 1"
  by (cases v) simp_all

lemma arccos32_in_range:
  assumes "float32_rounding rnd" and "- 1 \<le> w" and "w \<le> 1"
  shows "\<exists>t. 0 \<le> t \<and> t \<le> pi \<and> f32_arccos rnd (Fin w) = Fin (rnd t)"
proof -
  have r: "0 \<le> arccos w" "arccos w \<le> pi"
    using assms(2,3) by (simp_all add: arccos_lbound arccos_ubound)
  with pi_less_4 have "\<bar>arccos w\<bar> \<le> 4" by simp
  moreover have "2 * (4::real) \<le> FLT_MAX" by (simp add: FLT_MAX_def)
  ultimately have "to_float32 rnd (arccos w) = Fin (rnd (arccos w))"
    using to_float32_within [OF assms(1)] by blast
  with r assms(2,3) show ?thesis by auto
qed

lemma difference_bounded:
  assumes "float32_rounding rnd" and "\<bar>x\<bar> \<le> COORD_MAX" and "\<bar>y\<bar> \<le> COORD_MAX"
  shows "bounded_by (4 * COORD_MAX) (f32_sub rnd (Fin x) (Fin y))"
proof -
  have "bounded_by COORD_MAX (Fin x)" "bounded_by COORD_MAX (Fin y)"
    using assms(2,3) by simp_all
  moreover have "2 * (COORD_MAX + COORD_MAX) \<le> FLT_MAX"
    by (simp add: COORD_MAX_def FLT_MAX_def)
  ultimately have "bounded_by (2 * (COORD_MAX + COORD_MAX)) (f32_sub rnd (Fin x) (Fin y))"
    by (rule sub_within [OF assms(1)])
  then show ?thesis by simp
qed

lemma dot2_bounded:
  assumes "float32_rounding rnd"
    and "bounded_by (4 * COORD_MAX) d1" and "bounded_by (4 * COORD_MAX) d2"
    and "bounded_by (4 * COORD_MAX) e1" and "bounded_by (4 * COORD_MAX) e2"
  shows "\<exists>X. np_dot32 rnd [d1, d2] [e1, e2] = Inr (Fin (rnd X))
           \<and> \<bar>rnd X\<bar> \<le> 192 * (COORD_MAX * COORD_MAX)"
proof -
  let ?D = "4 * COORD_MAX"
  have m: "2 * (?D * ?D) \<le> FLT_MAX" by (simp add: COORD_MAX_def FLT_MAX_def)
  from assms(2) obtain x1 where x1: "d1 = Fin x1" "\<bar>x1\<bar> \<le> ?D" by (rule bounded_byE)
  from assms(3) obtain x2 where x2: "d2 = Fin x2" "\<bar>x2\<bar> \<le> ?D" by (rule bounded_byE)
  from assms(4) obtain y1 where y1: "e1 = Fin y1" "\<bar>y1\<bar> \<le> ?D" by (rule bounded_byE)
  from assms(5) obtain y2 where y2: "e2 = Fin y2" "\<bar>y2\<bar> \<le> ?D" by (rule bounded_byE)
  from x1 y1 have "\<bar>x1\<bar> * \<bar>y1\<bar> \<le> ?D * ?D" by (intro mult_mono) simp_all
  then have "\<bar>x1 * y1\<bar> \<le> ?D * ?D" by (simp add: abs_mult)
  from to_float32_within [OF assms(1) this m]
  have p1: "to_float32 rnd (x1 * y1) = Fin (rnd (x1 * y1))" "\<bar>rnd (x1 * y1)\<bar> \<le> 2 * (?D * ?D)"
    by simp_all
  from x2 y2 have "\<bar>x2\<bar> * \<bar>y2\<bar> \<le> ?D * ?D" by (intro mult_mono) simp_all
  then have "\<bar>x2 * y2\<bar> \<le> ?D * ?D" by (simp add: abs_mult)
  from to_float32_within [OF assms(1) this m]
  have p2: "to_float32 rnd (x2 * y2) = Fin (rnd (x2 * y2))" "\<bar>rnd (x2 * y2)\<bar> \<le> 2 * (?D * ?D)"
    by simp_all
  have "2 * (2 * (?D * ?D)) \<le> FLT_MAX" by (simp add: COORD_MAX_def FLT_MAX_def)
  with p1(2) to_float32_within [OF assms(1), of "0 + rnd (x1 * y1)" "2 * (?D * ?D)"]
  have a0: "to_float32 rnd (0 + rnd (x1 * y1)) = Fin (rnd (0 + rnd (x1 * y1)))"
    "\<bar>rnd (0 + rnd (x1 * y1))\<bar> \<le> 4 * (?D * ?D)"
    by simp_all
  from a0(2) p2(2) have "\<bar>rnd (0 + rnd (x1 * y1)) + rnd (x2 * y2)\<bar> \<le> 6 * (?D * ?D)" by simp
  moreover have "2 * (6 * (?D * ?D)) \<le> FLT_MAX" by (simp add: COORD_MAX_def FLT_MAX_def)
  ultimately
  have a1: "to_float32 rnd (rnd (0 + rnd (x1 * y1)) + rnd (x2 * y2))
              = Fin (rnd (rnd (0 + rnd (x1 * y1)) + rnd (x2 * y2)))"
    "\<bar>rnd (rnd (0 + rnd (x1 * y1)) + rnd (x2 * y2))\<bar> \<le> 2 * (6 * (?D * ?D))"
    using to_float32_within [OF assms(1)] by blast+
  have "np_dot32 rnd [d1, d2] [e1, e2]
          = Inr (Fin (rnd (rnd (0 + rnd (x1 * y1)) + rnd (x2 * y2))))"
    using x1 x2 y1 y2 p1(1) p2(1) a0(1) a1(1) by (simp add: np_dot32_def)
  with a1(2) show ?thesis by (intro exI [of _ "rnd (0 + rnd (x1 * y1)) + rnd (x2 * y2)"]) simp
qed

lemma norm2_bounded:
  assumes "float32_rounding rnd"
    and "bounded_by (4 * COORD_MAX) d1" and "bounded_by (4 * COORD_MAX) d2"
  shows "\<exists>X. linalg_norm32 rnd [d1, d2] = Fin (rnd (sqrt (rnd X)))
           \<and> \<bar>rnd (sqrt (rnd X))\<bar> \<le> 32 * COORD_MAX"
proof -
  let ?D = "4 * COORD_MAX"
  have m: "2 * (?D * ?D) \<le> FLT_MAX" by (simp add: COORD_MAX_def FLT_MAX_def)
  from assms(2) obtain x1 where x1: "d1 = Fin x1" "\<bar>x1\<bar> \<le> ?D" by (rule bounded_byE)
  from assms(3) obtain x2 where x2: "d2 = Fin x2" "\<bar>x2\<bar> \<le> ?D" by (rule bounded_byE)
  from x1 have "\<bar>x1\<bar> * \<bar>x1\<bar> \<le> ?D * ?D" by (intro mult_mono) simp_all
  then have "\<bar>x1 * x1\<bar> \<le> ?D * ?D" by (simp add: abs_mult)
  from to_float32_within [OF assms(1) this m] rounding_nonneg [OF assms(1), of "x1 * x1"]
  have p1: "to_float32 rnd (x1 * x1) = Fin (rnd (x1 * x1))" "\<bar>rnd (x1 * x1)\<bar> \<le> 2 * (?D * ?D)"
    "0 \<le> rnd (x1 * x1)"
    by simp_all
  from x2 have "\<bar>x2\<bar> * \<bar>x2\<bar> \<le> ?D * ?D" by (intro mult_mono) simp_all
  then have "\<bar>x2 * x2\<bar> \<le> ?D * ?D" by (simp add: abs_mult)
  from to_float32_within [OF assms(1) this m] rounding_nonneg [OF assms(1), of "x2 * x2"]
  have p2: "to_float32 rnd (x2 * x2) = Fin (rnd (x2 * x2))" "\<bar>rnd (x2 * x2)\<bar> \<le> 2 * (?D * ?D)"
    "0 \<le> rnd (x2 * x2)"
    by simp_all
  have "2 * (2 * (?D * ?D)) \<le> FLT_MAX" by (simp add: COORD_MAX_def FLT_MAX_def)
  with p1(2,3) to_float32_within [OF assms(1), of "0 + rnd (x1 * x1)" "2 * (?D * ?D)"]
    rounding_nonneg [OF assms(1), of "0 + rnd (x1 * x1)"]
  have a0: "to_float32 rnd (0 + rnd (x1 * x1)) = Fin (rnd (0 + rnd (x1 * x1)))"
    "\<bar>rnd (0 + rnd (x1 * x1))\<bar> \<le> 4 * (?D * ?D)" "0 \<le> rnd (0 + rnd (x1 * x1))"
    by simp_all
  let ?X = "rnd (0 + rnd (x1 * x1)) + rnd (x2 * x2)"
  from a0(2) p2(2) have "\<bar>?X\<bar> \<le> 6 * (?D * ?D)" by simp
  moreover have "2 * (6 * (?D * ?D)) \<le> FLT_MAX" by (simp add: COORD_MAX_def FLT_MAX_def)
  ultimately
  have a1: "to_float32 rnd ?X = Fin (rnd ?X)" "\<bar>rnd ?X\<bar> \<le> 2 * (6 * (?D * ?D))"
    using to_float32_within [OF assms(1)] by blast+
  from a0(3) p2(3) have "0 \<le> ?X" by simp
  then have n: "0 \<le> rnd ?X" by (rule rounding_nonneg [OF assms(1)])
  from a1(2) n have "rnd ?X \<le> (4 * ?D) * (4 * ?D)" by simp
  then have "sqrt (rnd ?X) \<le> sqrt ((4 * ?D) * (4 * ?D))" by (rule real_sqrt_le_mono)
  then have "sqrt (rnd ?X) \<le> 4 * ?D" by (simp add: COORD_MAX_def)
  with n have "\<bar>sqrt (rnd ?X)\<bar> \<le> 4 * ?D" by simp
  moreover have "2 * (4 * ?D) \<le> FLT_MAX" by (simp add: COORD_MAX_def FLT_MAX_def)
  ultimately
  have s: "to_float32 rnd (sqrt (rnd ?X)) = Fin (rnd (sqrt (rnd ?X)))"
    "\<bar>rnd (sqrt (rnd ?X))\<bar> \<le> 2 * (4 * ?D)"
    using to_float32_within [OF assms(1)] by blast+
  have "linalg_norm32 rnd [d1, d2] = Fin (rnd (sqrt (rnd ?X)))"
    using x1 x2 p1(1) p2(1) a0(1) a1(1) n s(1) by (simp add: linalg_norm32_def)
  with s(2) show ?thesis by (intro exI [of _ ?X]) simp
qed

lemma calculate_angle32_in_range:
  assumes r: "float32_rounding rnd"
    and a: "\<bar>a1\<bar> \<le> COORD_MAX" "\<bar>a2\<bar> \<le> COORD_MAX"
    and b: "\<bar>b1\<bar> \<le> COORD_MAX" "\<bar>b2\<bar> \<le> COORD_MAX"
    and c: "\<bar>c1\<bar> \<le> COORD_MAX" "\<bar>c2\<bar> \<le> COORD_MAX"
  shows "\<exists>t. 0 \<le> t \<and> t \<le> pi
           \<and> calculate_angle32 rnd [a1, a2] [b1, b2] [c1, c2] = Inr (Fin (rnd t))"
proof -
  let ?ba1 = "f32_sub rnd (Fin a1) (Fin b1)" and ?ba2 = "f32_sub rnd (Fin a2) (Fin b2)"
  let ?bc1 = "f32_sub rnd (Fin c1) (Fin b1)" and ?bc2 = "f32_sub rnd (Fin c2) (Fin b2)"
  have d: "bounded_by (4 * COORD_MAX) ?ba1" "bounded_by (4 * COORD_MAX) ?ba2"
    "bounded_by (4 * COORD_MAX) ?bc1" "bounded_by (4 * COORD_MAX) ?bc2"
    using a b c by (simp_all add: difference_bounded [OF r])
  obtain X where nba: "linalg_norm32 rnd [?ba1, ?ba2] = Fin (rnd (sqrt (rnd X)))"
    "\<bar>rnd (sqrt (rnd X))\<bar> \<le> 32 * COORD_MAX"
    using norm2_bounded [OF r d(1,2)] by blast
  obtain Y where nbc: "linalg_norm32 rnd [?bc1, ?bc2] = Fin (rnd (sqrt (rnd Y)))"
    "\<bar>rnd (sqrt (rnd Y))\<bar> \<le> 32 * COORD_MAX"
    using norm2_bounded [OF r d(3,4)] by blast
  obtain Z where dot: "np_dot32 rnd [?ba1, ?ba2] [?bc1, ?bc2] = Inr (Fin (rnd Z))"
    using dot2_bounded [OF r d] by blast
  have sub: "np_subtract32 rnd [a1, a2] [b1, b2] = Inr [?ba1, ?ba2]"
    "np_subtract32 rnd [c1, c2] [b1, b2] = Inr [?bc1, ?bc2]"
    by (simp_all add: np_subtract32_def)
  show ?thesis
  proof (cases "rnd (sqrt (rnd X)) = 0 \<or> rnd (sqrt (rnd Y)) = 0")
    case True
    then have "calculate_angle32 rnd [a1, a2] [b1, b2] [c1, c2] = Inr (Fin 0)"
      by (auto simp: calculate_angle32_def sub nba(1) nbc(1))
    with rounding_zero [OF r] show ?thesis by (intro exI [of _ 0]) simp
  next
    case False
    let ?n1 = "rnd (sqrt (rnd X))" and ?n2 = "rnd (sqrt (rnd Y))"
    from nba(2) nbc(2) have "\<bar>?n1\<bar> * \<bar>?n2\<bar> \<le> (32 * COORD_MAX) * (32 * COORD_MAX)"
      by (intro mult_mono) simp_all
    then have "\<bar>?n1 * ?n2\<bar> \<le> (32 * COORD_MAX) * (32 * COORD_MAX)" by (simp add: abs_mult)
    moreover have "2 * ((32 * COORD_MAX) * (32 * COORD_MAX)) \<le> FLT_MAX"
      by (simp add: COORD_MAX_def FLT_MAX_def)
    ultimately have prod: "to_float32 rnd (?n1 * ?n2) = Fin (rnd (?n1 * ?n2))"
      using to_float32_within [OF r] by blast
    from r False have nz: "rnd (?n1 * ?n2) \<noteq> 0"
      unfolding float32_rounding_def by blast
    have "f32_div rnd (Fin (rnd Z)) (Fin (rnd (?n1 * ?n2))) \<noteq> NaN"
      using nz by (simp add: to_float32_not_nan)
    from clip_unit [OF this] obtain w where w:
      "np_clip (f32_div rnd (Fin (rnd Z)) (Fin (rnd (?n1 * ?n2)))) (- 1) 1 = Fin w"
      "- 1 \<le> w" "w \<le> 1"
      by blast
    from arccos32_in_range [OF r w(2,3)] obtain t where t:
      "0 \<le> t" "t \<le> pi" "f32_arccos rnd (Fin w) = Fin (rnd t)"
      by blast
    from False have "calculate_angle32 rnd [a1, a2] [b1, b2] [c1, c2]
        = Inr (f32_arccos rnd
            (np_clip (f32_div rnd (Fin (rnd Z)) (Fin (rnd (?n1 * ?n2)))) (- 1) 1))"
      by (simp add: calculate_angle32_def sub nba(1) nbc(1) dot prod Let_def
          del: f32_div.simps)
    then have "calculate_angle32 rnd [a1, a2] [b1, b2] [c1, c2] = Inr (Fin (rnd t))"
      by (simp only: w(1) t(3))
    with t(1,2) show ?thesis by blast
  qed
qed

lemma rounded_angle_finite: "rounded_angle rnd v \<Longrightarrow> finite_or_none v"
  by (auto simp: rounded_angle_def)

lemma bounded_finite: "bounded_by M v \<Longrightarrow> finite_or_none (Some v)"
  by (cases v) simp_all

lemma arm_angle32_pos:
  assumes "float32_rounding rnd" and "in_range h" and "in_range s" and "in_range e"
  shows "\<exists>t. 0 \<le> t \<and> t \<le> pi \<and> calculate_angle32 rnd (pos h) (pos s) (pos e) = Inr (Fin (rnd t))"
  using assms(2,3,4) unfolding pos_def in_range_def
  by (intro calculate_angle32_in_range [OF assms(1)]) simp_all

lemma left_arm_angle32_effect:
  assumes "float32_rounding rnd" and "in_range h" and "in_range s" and "in_range e"
  shows "\<exists>x'. left_arm_angle32 rnd h s e x = Inr x'
        \<and> trigger32 x' = trigger32 x \<and> offsets32 x' = offsets32 x
        \<and> right_arm (latest_pose_data32 x') = right_arm (latest_pose_data32 x)
        \<and> hip_sway (latest_pose_data32 x') = hip_sway (latest_pose_data32 x)
        \<and> (left_arm (latest_pose_data32 x') = left_arm (latest_pose_data32 x)
             \<or> rounded_angle rnd (left_arm (latest_pose_data32 x')))"
proof -
  obtain t where "0 \<le> t" "t \<le> pi"
    "calculate_angle32 rnd (pos h) (pos s) (pos e) = Inr (Fin (rnd t))"
    using arm_angle32_pos [OF assms] by blast
  then show ?thesis by (auto simp: left_arm_angle32_def rounded_angle_def)
qed

lemma right_arm_angle32_effect:
  assumes "float32_rounding rnd" and "in_range h" and "in_range s" and "in_range e"
  shows "\<exists>x'. right_arm_angle32 rnd h s e x = Inr x'
        \<and> trigger32 x' = trigger32 x \<and> offsets32 x' = offsets32 x
        \<and> left_arm (latest_pose_data32 x') = left_arm (latest_pose_data32 x)
        \<and> hip_sway (latest_pose_data32 x') = hip_sway (latest_pose_data32 x)
        \<and> (right_arm (latest_pose_data32 x') = right_arm (latest_pose_data32 x)
             \<or> rounded_angle rnd (right_arm (latest_pose_data32 x')))"
proof -
  obtain t where "0 \<le> t" "t \<le> pi"
    "calculate_angle32 rnd (pos h) (pos s) (pos e) = Inr (Fin (rnd t))"
    using arm_angle32_pos [OF assms] by blast
  then show ?thesis by (auto simp: right_arm_angle32_def rounded_angle_def)
qed

lemma half_within:
  assumes "float32_rounding rnd" and "bounded_by A a" and "A \<le> FLT_MAX"
  shows "bounded_by A (f32_div rnd a (Fin 2))"
proof -
  from assms(2) obtain x where x: "a = Fin x" "\<bar>x\<bar> \<le> A" by (rule bounded_byE)
  from x have "\<bar>x / 2\<bar> \<le> A / 2" by simp
  moreover from assms(3) have "2 * (A / 2) \<le> FLT_MAX" by simp
  ultimately have "to_float32 rnd (x / 2) = Fin (rnd (x / 2)) \<and> \<bar>rnd (x / 2)\<bar> \<le> 2 * (A / 2)"
    by (rule to_float32_within [OF assms(1)])
  with x show ?thesis by simp
qed

lemma center_bounded:
  assumes "float32_rounding rnd" and "\<bar>l\<bar> \<le> COORD_MAX" and "\<bar>r\<bar> \<le> COORD_MAX"
  shows "bounded_by (4 * COORD_MAX) (f32_div rnd (f32_add rnd (Fin l) (Fin r)) (Fin 2))"
proof -
  have "bounded_by COORD_MAX (Fin l)" "bounded_by COORD_MAX (Fin r)"
    using assms(2,3) by simp_all
  moreover have "2 * (COORD_MAX + COORD_MAX) \<le> FLT_MAX"
    by (simp add: COORD_MAX_def FLT_MAX_def)
  ultimately have "bounded_by (2 * (COORD_MAX + COORD_MAX)) (f32_add rnd (Fin l) (Fin r))"
    by (rule add_within [OF assms(1)])
  then have "bounded_by (4 * COORD_MAX) (f32_add rnd (Fin l) (Fin r))" by simp
  moreover have "4 * COORD_MAX \<le> FLT_MAX" by (simp add: COORD_MAX_def FLT_MAX_def)
  ultimately show ?thesis by (rule half_within [OF assms(1)])
qed

lemma raw_sway32_bounded:
  assumes "float32_rounding rnd" and "in_range lh" and "in_range rh"
    and "in_range ls" and "in_range rs"
  shows "bounded_by (16 * COORD_MAX) (raw_sway32 rnd lh rh ls rs)"
proof -
  have h: "bounded_by (4 * COORD_MAX) (f32_div rnd (f32_add rnd (Fin (kx lh)) (Fin (kx rh))) (Fin 2))"
    using assms(2,3) by (intro center_bounded [OF assms(1)]) (simp_all add: in_range_def)
  have s: "bounded_by (4 * COORD_MAX) (f32_div rnd (f32_add rnd (Fin (kx ls)) (Fin (kx rs))) (Fin 2))"
    using assms(4,5) by (intro center_bounded [OF assms(1)]) (simp_all add: in_range_def)
  have "2 * (4 * COORD_MAX + 4 * COORD_MAX) \<le> FLT_MAX"
    by (simp add: COORD_MAX_def FLT_MAX_def)
  from sub_within [OF assms(1) h s this] show ?thesis
    by (simp add: raw_sway32_def Let_def del: f32_div.simps f32_add.simps)
qed

lemma final_sway_finite:
  assumes "float32_rounding rnd" and "bounded_by (16 * COORD_MAX) raw"
    and "bounded_by (16 * COORD_MAX) zero"
  shows "finite_or_none (Some (f32_sub rnd raw zero))"
proof -
  have "2 * (16 * COORD_MAX + 16 * COORD_MAX) \<le> FLT_MAX"
    by (simp add: COORD_MAX_def FLT_MAX_def)
  from sub_within [OF assms this] show ?thesis by (rule bounded_finite)
qed

lemma hip_sway_calculation32_effect:
  assumes "float32_rounding rnd" and "in_range lh" and "in_range rh"
    and "in_range ls" and "in_range rs" and "offset_in_range (offsets32 x)"
  shows "case hip_sway_calculation32 rnd lh rh ls rs x of
           Inl e \<Rightarrow> True
         | Inr x' \<Rightarrow>
             left_arm (latest_pose_data32 x') = left_arm (latest_pose_data32 x)
             \<and> right_arm (latest_pose_data32 x') = right_arm (latest_pose_data32 x)
             \<and> (hip_sway (latest_pose_data32 x') = hip_sway (latest_pose_data32 x)
                  \<or> finite_or_none (hip_sway (latest_pose_data32 x')))
             \<and> offset_in_range (offsets32 x')"
proof -
  let ?raw = "raw_sway32 rnd lh rh ls rs"
  have raw: "bounded_by (16 * COORD_MAX) ?raw"
    by (rule raw_sway32_bounded [OF assms(1,2,3,4,5)])
  have same: "finite_or_none (Some (f32_sub rnd ?raw ?raw))"
    by (rule final_sway_finite [OF assms(1) raw raw])
  have other: "finite_or_none (Some (f32_sub rnd ?raw zero))"
    if "offsets32 x ''hip_sway'' = Some zero" for zero
  proof -
    from that assms(6) have "bounded_by (16 * COORD_MAX) zero"
      by (simp add: offset_in_range_def)
    from final_sway_finite [OF assms(1) raw this] show ?thesis .
  qed
  show ?thesis
  proof (cases "CONF_THRESHOLD < kconf lh \<and> CONF_THRESHOLD < kconf rh
         \<and> CONF_THRESHOLD < kconf ls \<and> CONF_THRESHOLD < kconf rs")
    case False
    with assms(6) show ?thesis by (auto simp: hip_sway_calculation32_def)
  next
    case vis: True
    show ?thesis
    proof (cases "trigger32 x")
      case True
      with vis raw same show ?thesis
        by (simp add: hip_sway_calculation32_def Let_def offset_in_range_def)
    next
      case False
      show ?thesis
      proof (cases "offsets32 x ''hip_sway''")
        case None
        with vis False show ?thesis by (simp add: hip_sway_calculation32_def Let_def)
      next
        case (Some zero)
        with vis False other [OF Some] assms(6) show ?thesis
          by (simp add: hip_sway_calculation32_def Let_def)
      qed
    qed
  qed
qed

lemma keypoint_processing32_short:
  "length p \<le> RIGHT_HIP \<Longrightarrow> keypoint_processing32 rnd p x = x"
  by (simp add: keypoint_processing32_def getitem_def LEFT_HIP_def RIGHT_HIP_def)

lemma keypoint_processing32_fields:
  assumes r: "float32_rounding rnd" and p: "list_all in_range p"
    and x: "rounded_angle rnd (left_arm (latest_pose_data32 x))"
      "rounded_angle rnd (right_arm (latest_pose_data32 x))"
      "finite_or_none (hip_sway (latest_pose_data32 x))"
      "offset_in_range (offsets32 x)"
  shows "rounded_angle rnd (left_arm (latest_pose_data32 (keypoint_processing32 rnd p x)))
         \<and> rounded_angle rnd (right_arm (latest_pose_data32 (keypoint_processing32 rnd p x)))
         \<and> finite_or_none (hip_sway (latest_pose_data32 (keypoint_processing32 rnd p x)))
         \<and> offset_in_range (offsets32 (keypoint_processing32 rnd p x))"
proof (cases "RIGHT_HIP < length p")
  case False
  with x show ?thesis by (simp add: keypoint_processing32_short)
next
  case True
  then have idx: "getitem p LEFT_HIP = Inr (p ! LEFT_HIP)" "getitem p RIGHT_HIP = Inr (p ! RIGHT_HIP)"
    "getitem p LEFT_SHOULDER = Inr (p ! LEFT_SHOULDER)"
    "getitem p RIGHT_SHOULDER = Inr (p ! RIGHT_SHOULDER)"
    "getitem p LEFT_ELBOW = Inr (p ! LEFT_ELBOW)" "getitem p RIGHT_ELBOW = Inr (p ! RIGHT_ELBOW)"
    by (simp_all add: getitem_def LEFT_HIP_def RIGHT_HIP_def LEFT_SHOULDER_def
        RIGHT_SHOULDER_def LEFT_ELBOW_def RIGHT_ELBOW_def)
  from True p have rng: "in_range (p ! LEFT_HIP)" "in_range (p ! RIGHT_HIP)"
    "in_range (p ! LEFT_SHOULDER)" "in_range (p ! RIGHT_SHOULDER)"
    "in_range (p ! LEFT_ELBOW)" "in_range (p ! RIGHT_ELBOW)"
    by (simp_all add: list_all_length LEFT_HIP_def RIGHT_HIP_def LEFT_SHOULDER_def
        RIGHT_SHOULDER_def LEFT_ELBOW_def RIGHT_ELBOW_def)
  obtain x1 where x1:
    "left_arm_angle32 rnd (p ! LEFT_HIP) (p ! LEFT_SHOULDER) (p ! LEFT_ELBOW) x = Inr x1"
    "offsets32 x1 = offsets32 x"
    "right_arm (latest_pose_data32 x1) = right_arm (latest_pose_data32 x)"
    "hip_sway (latest_pose_data32 x1) = hip_sway (latest_pose_data32 x)"
    "left_arm (latest_pose_data32 x1) = left_arm (latest_pose_data32 x)
       \<or> rounded_angle rnd (left_arm (latest_pose_data32 x1))"
    using left_arm_angle32_effect [OF r rng(1,3,5)] by blast
  obtain x2 where x2:
    "right_arm_angle32 rnd (p ! RIGHT_HIP) (p ! RIGHT_SHOULDER) (p ! RIGHT_ELBOW) x1 = Inr x2"
    "offsets32 x2 = offsets32 x1"
    "left_arm (latest_pose_data32 x2) = left_arm (latest_pose_data32 x1)"
    "hip_sway (latest_pose_data32 x2) = hip_sway (latest_pose_data32 x1)"
    "right_arm (latest_pose_data32 x2) = right_arm (latest_pose_data32 x1)
       \<or> rounded_angle rnd (right_arm (latest_pose_data32 x2))"
    using right_arm_angle32_effect [OF r rng(2,4,6)] by blast
  from x x1 x2 have ok2: "rounded_angle rnd (left_arm (latest_pose_data32 x2))"
    "rounded_angle rnd (right_arm (latest_pose_data32 x2))"
    "finite_or_none (hip_sway (latest_pose_data32 x2))"
    "offset_in_range (offsets32 x2)"
    by auto
  have kp: "keypoint_processing32 rnd p x =
      (case hip_sway_calculation32 rnd (p ! LEFT_HIP) (p ! RIGHT_HIP)
              (p ! LEFT_SHOULDER) (p ! RIGHT_SHOULDER) x2 of
         Inl e \<Rightarrow> x2
       | Inr x3 \<Rightarrow> x3)"
    by (simp add: keypoint_processing32_def idx x1(1) x2(1))
  show ?thesis
  proof (cases "hip_sway_calculation32 rnd (p ! LEFT_HIP) (p ! RIGHT_HIP)
                  (p ! LEFT_SHOULDER) (p ! RIGHT_SHOULDER) x2")
    case (Inl e)
    with kp ok2 show ?thesis by simp
  next
    case (Inr x3)
    with hip_sway_calculation32_effect [OF r rng(1,2,3,4) ok2(4)]
    have "left_arm (latest_pose_data32 x3) = left_arm (latest_pose_data32 x2)"
      "right_arm (latest_pose_data32 x3) = right_arm (latest_pose_data32 x2)"
      "hip_sway (latest_pose_data32 x3) = hip_sway (latest_pose_data32 x2)
         \<or> finite_or_none (hip_sway (latest_pose_data32 x3))"
      "offset_in_range (offsets32 x3)"
      by simp_all
    with kp Inr ok2 show ?thesis by auto
  qed
qed

text \<open>
  C9, as amended: for every rounding, when the coordinates of the processed person are at
  most \<open>10 ^ 16\<close> in magnitude and the stored offset is in range, every field of the bundle
  the \<open>try\<close> block produces is \<open>None\<close> or a finite float, never \<open>nan\<close>: the zero-length
  guard and the clamp of the cosine before \<open>arccos\<close> make each arm angle the rounding of a
  value in [0, pi], the hip sway is finite, and the offset stays in range for the next
  frame. For larger finite coordinates this fails, as the frame above shows.
\<close>

theorem bundles_finite_in_range:
  assumes "float32_rounding rnd" and "frame_in_range keypoints"
    and "offset_in_range zero_offsets"
    and "frame_result32 rnd plotted keypoints calibrate zero_offsets = Some x"
  shows "rounded_angle rnd (left_arm (latest_pose_data32 x))
         \<and> rounded_angle rnd (right_arm (latest_pose_data32 x))
         \<and> finite_or_none (left_arm (latest_pose_data32 x))
         \<and> finite_or_none (right_arm (latest_pose_data32 x))
         \<and> finite_or_none (hip_sway (latest_pose_data32 x))
         \<and> offset_in_range (offsets32 x)"
proof -
  let ?x0 = "\<lparr>annotated_frame32 = \<lparr>plot = plotted, labels = []\<rparr>,
        latest_pose_data32 = no_pose_data, trigger32 = calibrate, offsets32 = zero_offsets\<rparr>"
  have x0: "rounded_angle rnd (left_arm (latest_pose_data32 ?x0))"
    "rounded_angle rnd (right_arm (latest_pose_data32 ?x0))"
    "finite_or_none (hip_sway (latest_pose_data32 ?x0))"
    "offset_in_range (offsets32 ?x0)"
    using assms(3) by (simp_all add: no_pose_data_def rounded_angle_def)
  have "rounded_angle rnd (left_arm (latest_pose_data32 x))
         \<and> rounded_angle rnd (right_arm (latest_pose_data32 x))
         \<and> finite_or_none (hip_sway (latest_pose_data32 x))
         \<and> offset_in_range (offsets32 x)"
  proof (cases keypoints)
    case None
    with assms(4) have "x = ?x0" by (simp add: frame_result32_def try_block32_def)
    with x0 show ?thesis by (simp only:)
  next
    case (Some ps)
    show ?thesis
    proof (cases ps)
      case Nil
      with Some assms(4) show ?thesis by (simp add: frame_result32_def try_block32_def)
    next
      case (Cons p others)
      with Some assms(2) have p: "list_all in_range p" by (simp add: frame_in_range_def)
      from Some Cons assms(4) have "x = keypoint_processing32 rnd p ?x0"
        by (simp add: frame_result32_def try_block32_def)
      with keypoint_processing32_fields [OF assms(1) p x0] show ?thesis by (simp only:)
    qed
  qed
  then show ?thesis by (auto intro: rounded_angle_finite)
qed

theorem bundles_finite_in_range_witness:
  "\<exists>x. frame_result32 id 1 (Some [sample_person 30]) False [''hip_sway'' \<mapsto> Fin 0] = Some x
       \<and> finite_or_none (left_arm (latest_pose_data32 x))
       \<and> finite_or_none (right_arm (latest_pose_data32 x))
       \<and> finite_or_none (hip_sway (latest_pose_data32 x))
       \<and> hip_sway (latest_pose_data32 x) = Some (Fin 30)"
proof -
  let ?x0 = "\<lparr>annotated_frame32 = \<lparr>plot = 1, labels = []\<rparr>,
        latest_pose_data32 = no_pose_data, trigger32 = False,
        offsets32 = [''hip_sway'' \<mapsto> Fin 0]\<rparr>"
  let ?x = "keypoint_processing32 id (sample_person 30) ?x0"
  have f: "frame_result32 id 1 (Some [sample_person 30]) False [''hip_sway'' \<mapsto> Fin 0] = Some ?x"
    by (simp add: frame_result32_def try_block32_def)
  have a2: "frame_in_range (Some [sample_person 30])"
    by (simp add: frame_in_range_def sample_person_def kpt_def in_range_def COORD_MAX_def)
  have a3: "offset_in_range [''hip_sway'' \<mapsto> Fin 0]"
    by (simp add: offset_in_range_def COORD_MAX_def)
  note b = bundles_finite_in_range [OF id_rounding a2 a3 f]
  have "hip_sway (latest_pose_data32 ?x) = Some (Fin 30)"
    by (simp add: keypoint_processing32_def getitem_def
      sample_person_def kpt_def LEFT_HIP_def RIGHT_HIP_def LEFT_SHOULDER_def
      RIGHT_SHOULDER_def LEFT_ELBOW_def RIGHT_ELBOW_def CONF_THRESHOLD_def
      left_arm_angle32_def right_arm_angle32_def hip_sway_calculation32_def raw_sway32_def
      pos_def calculate_angle32_def np_subtract32_def linalg_norm32_def np_dot32_def
      f32_sub_def to_float32_def FLT_MAX_def Let_def no_pose_data_def putText_def
      split: sum.splits)
  with b f show ?thesis by blast
qed

text \<open>
  The clamp carries weight once results are rounded: for a hip and an elbow both at (1, 0)
  seen from a shoulder at the origin, under \<open>round_down\<close>, the unclamped cosine exceeds 1
  and \<open>arccos\<close> of it is \<open>nan\<close>; the clamp brings it back to 1.
\<close>

lemma round_down_fits: "\<bar>x\<bar> \<le> 2 \<Longrightarrow> to_float32 round_down x = Fin (round_down x)"
  using to_float32_within [OF round_down_rounding, of x 2] by (simp add: FLT_MAX_def)

lemma clamp_needed:
  "\<exists>d n q. np_dot32 round_down [Fin (round_down 1), Fin 0] [Fin (round_down 1), Fin 0] = Inr d
     \<and> linalg_norm32 round_down [Fin (round_down 1), Fin 0] = n
     \<and> f32_div round_down d (f32_mul round_down n n) = Fin q
     \<and> 1 < q
     \<and> f32_arccos round_down (Fin q) = NaN
     \<and> np_clip (Fin q) (- 1) 1 = Fin 1"
proof -
  define u :: real where "u = 1 - 1 / 2 ^ 24"
  have u: "0 < u" "u < 1" by (simp_all add: u_def)
  have rd: "round_down x = x * u" for x by (simp add: round_down_def u_def)
  have small: "\<bar>x\<bar> \<le> 2 \<Longrightarrow> to_float32 round_down x = Fin (x * u)" for x
    using round_down_fits [of x] by (simp add: rd)
  have pw: "0 < u ^ k" "u ^ k \<le> 1" for k
    using u by (simp_all add: power_le_one)
  have ab: "\<bar>u ^ k\<bar> \<le> 2" for k using pw [of k] by simp
  have p1: "to_float32 round_down (u * u) = Fin (u ^ 3)"
    using small [of "u ^ 2"] ab [of 2] by (simp add: power2_eq_square power3_eq_cube)
  have z: "to_float32 round_down 0 = Fin 0" using small [of 0] by simp
  have a0: "to_float32 round_down (u ^ 3) = Fin (u ^ 4)"
    using small [of "u ^ 3"] ab [of 3] by (simp add: power_Suc2 [symmetric] del: power_Suc)
  have a1: "to_float32 round_down (u ^ 4) = Fin (u ^ 5)"
    using small [of "u ^ 4"] ab [of 4] by (simp add: power_Suc2 [symmetric] del: power_Suc)
  have acc: "foldl (\<lambda>acc x. f32_add round_down acc (f32_mul round_down x x)) (Fin 0)
               [Fin (round_down 1), Fin 0] = Fin (u ^ 5)"
    by (simp add: rd p1 z a0 a1)
  have dot: "np_dot32 round_down [Fin (round_down 1), Fin 0] [Fin (round_down 1), Fin 0]
               = Inr (Fin (u ^ 5))"
    by (simp add: np_dot32_def rd p1 z a0 a1)
  let ?n = "sqrt (u ^ 5) * u"
  have sq: "0 < sqrt (u ^ 5)" "sqrt (u ^ 5) \<le> 1"
    using pw [of 5] by simp_all
  then have "\<bar>sqrt (u ^ 5)\<bar> \<le> 2" by linarith
  then have s: "to_float32 round_down (sqrt (u ^ 5)) = Fin ?n" by (rule small)
  have n: "linalg_norm32 round_down [Fin (round_down 1), Fin 0] = Fin ?n"
    using acc s pw [of 5] by (simp add: linalg_norm32_def del: foldl_Cons)
  have nn: "?n * ?n = u ^ 7"
  proof -
    have "sqrt (u ^ 5) * sqrt (u ^ 5) = u ^ 5" using pw [of 5] by simp
    then have "?n * ?n = u ^ 5 * (u * u)" by (simp add: algebra_simps)
    then show ?thesis by (simp add: power_add [symmetric] power2_eq_square [symmetric])
  qed
  have "\<bar>?n * ?n\<bar> \<le> 2" using ab [of 7] by (simp only: nn)
  then have "to_float32 round_down (?n * ?n) = Fin (?n * ?n * u)" by (rule small)
  then have prod: "f32_mul round_down (Fin ?n) (Fin ?n) = Fin (u ^ 8)"
    by (simp only: f32_mul.simps nn) (simp add: power_Suc2 [symmetric] del: power_Suc)
  have quot: "u ^ 5 / u ^ 8 = 1 / u ^ 3" using u by (simp add: power_diff field_simps)
  have q3: "1 < 1 / u ^ 3" "1 / u ^ 3 \<le> 2"
    by (simp_all add: u_def field_simps)
  then have "\<bar>1 / u ^ 3\<bar> \<le> 2" by simp
  then have "to_float32 round_down (1 / u ^ 3) = Fin (1 / u ^ 3 * u)" by (rule small)
  with pw [of 8] have d: "f32_div round_down (Fin (u ^ 5)) (Fin (u ^ 8)) = Fin (1 / u ^ 3 * u)"
    by (simp add: quot)
  have q: "1 < 1 / u ^ 3 * u" by (simp add: u_def field_simps)
  show ?thesis
    using dot n prod d q by (simp del: f32_div.simps f32_mul.simps)
qed

end
